theory Spec2Isabelle
  imports Main "HOL-Library.Multiset"
begin

section \<open>Data model\<close>

text \<open>
  The request handlers of \<^verbatim>\<open>blog/views.py\<close> work on four tables. A row is a record,
  a table is the list of its rows, a foreign key is the primary key of the row it
  points to, and a point in time is an integer timestamp.
\<close>

type_synonym datetime = int

text \<open>
  Modelled from the spec: \<^verbatim>\<open>blog/models.py\<close> is not among the sources, so the fields of
  the four entities are the ones the data-model section lists, together with the
  attributes that \<^verbatim>\<open>views.py\<close> reads (\<^verbatim>\<open>pk\<close>, \<^verbatim>\<open>username\<close>, \<^verbatim>\<open>is_staff\<close>,
  \<^verbatim>\<open>is_published\<close>, \<^verbatim>\<open>pub_date\<close>, \<^verbatim>\<open>author\<close>, \<^verbatim>\<open>category\<close>, \<^verbatim>\<open>post\<close>, \<^verbatim>\<open>slug\<close>).
  The category reference of a post may be empty; a comment always has its post.
\<close>

record user =
  user_id :: nat
  username :: string
  is_staff :: bool

record category =
  category_id :: nat
  slug :: string
  category_title :: string
  category_is_published :: bool

record post =
  post_id :: nat
  post_title :: string
  post_text :: string
  post_image :: string
  pub_date :: datetime
  is_published :: bool
  author :: nat
  category :: "nat option"

record comment =
  comment_id :: nat
  comment_text :: string
  comment_author :: nat
  comment_post :: nat
  created_at :: datetime

text \<open>
  The database: the four tables, and for the two tables that the views insert into
  the last primary key the table has handed out. Deleting a row does not wind that
  counter back, so a key is never handed out twice.
\<close>

record db =
  users :: "user list"
  categories :: "category list"
  posts :: "post list"
  comments :: "comment list"
  post_seq :: nat
  comment_seq :: nat

section \<open>Requests, routes and responses\<close>

text \<open>The resolved routes of \<^verbatim>\<open>blog/urls.py\<close>, one constructor for each \<^verbatim>\<open>path\<close>.\<close>

datatype url =
    Index
  | CategoryPosts string
  | Profile string
  | EditProfile
  | PostDetail nat
  | CreatePost
  | EditPost nat
  | DeletePost nat
  | AddComment nat
  | EditComment nat nat
  | DeleteComment nat nat

text \<open>
  The \<^verbatim>\<open>page\<close> parameter of the query string as the list views read it: absent
  (or empty), a number, the word \<^verbatim>\<open>last\<close>, or anything else.
\<close>

datatype page_query = NoPage | PageNumber int | PageLast | PageInvalid

type_synonym querydict = "(string \<times> string) list"

record request =
  user :: "user option"
  request_method :: string
  POST :: querydict
  FILES :: querydict
  GET_page :: page_query
  path :: url

text \<open>
  A redirect goes to a named route (\<^verbatim>\<open>redirect("blog:...")\<close>) or to the login
  page, which gets the requested address as \<^verbatim>\<open>next\<close>.
\<close>

datatype target = Reverse url | LoginRedirect string url

text \<open>A form: the submitted data and files (if any) and the instance it edits.\<close>

record 'a form =
  form_data :: "querydict option"
  form_files :: "querydict option"
  form_instance :: "'a option"

datatype "context" =
    IndexContext "(post \<times> nat) list" nat
  | CategoryContext "(post \<times> nat) list" category
  | ProfileContext "(post \<times> nat) list" user
  | UserContext user "user form"
  | DetailContext post "comment form" "comment list"
  | CreateContext "post form"
  | CommentContext "comment form" "comment option" post
  | DeleteCommentContext comment

text \<open>
  A response: a rendered template, a redirect, the answer to \<^verbatim>\<open>OPTIONS\<close> (the methods
  a view allows), or one of the error responses 404, 405 (with the allowed methods)
  and 500.
\<close>

datatype response =
    Render string "context"
  | Redirect target
  | HttpResponseOptions "string list"
  | HttpResponseNotFound
  | HttpResponseNotAllowed "string list"
  | HttpResponseServerError

datatype error = Http404 | MultipleObjectsReturned

type_synonym result = "error + response \<times> db"

section \<open>Queries\<close>

text \<open>
  \<^verbatim>\<open>get_object_or_404(Model, **conditions)\<close>: the one row that satisfies the
  conditions; no such row raises \<^verbatim>\<open>Http404\<close>, several raise
  \<^verbatim>\<open>MultipleObjectsReturned\<close>.
\<close>

definition get_object_or_404 :: "('a \<Rightarrow> bool) \<Rightarrow> 'a list \<Rightarrow> error + 'a" where
  "get_object_or_404 P rows =
     (case filter P rows of
        [] \<Rightarrow> Inl Http404
      | [x] \<Rightarrow> Inr x
      | _ \<Rightarrow> Inl MultipleObjectsReturned)"

text \<open>
  The lookup \<^verbatim>\<open>category__is_published=True\<close>: the join of a post with its category
  row. A post without a category has no row to join with.
\<close>

definition post_category_is_published :: "db \<Rightarrow> post \<Rightarrow> bool" where
  "post_category_is_published d p =
     (case category p of
        None \<Rightarrow> False
      | Some k \<Rightarrow> list_ex (\<lambda>c. category_id c = k \<and> category_is_published c) (categories d))"

text \<open>\<^verbatim>\<open>order_by("-pub_date")\<close>: a stable sort, latest publication date first.\<close>

definition order_by_pub_date_desc :: "post list \<Rightarrow> post list" where
  "order_by_pub_date_desc ps = sort_key (\<lambda>p. - pub_date p) ps"

text \<open>\<^verbatim>\<open>annotate(comment_count=Count("comment"))\<close>: each post with the number of its comments.\<close>

definition annotate_comment_count :: "db \<Rightarrow> post list \<Rightarrow> (post \<times> nat) list" where
  "annotate_comment_count d ps =
     map (\<lambda>p. (p, length (filter (\<lambda>c. comment_post c = post_id p) (comments d)))) ps"

section \<open>Pagination\<close>

definition PAGE_PAGINATOR :: nat where
  "PAGE_PAGINATOR = 10"

text \<open>The number of pages of a paginator that allows an empty first page and has no orphans.\<close>

definition num_pages :: "nat \<Rightarrow> nat \<Rightarrow> nat" where
  "num_pages per_page n = (max 1 n + per_page - 1) div per_page"

text \<open>
  \<^verbatim>\<open>ListView.paginate_queryset\<close>: the page number defaults to 1, \<^verbatim>\<open>last\<close> is the
  last page, and a page that is not a number or is out of range raises \<^verbatim>\<open>Http404\<close>.
\<close>

definition paginate_queryset :: "nat \<Rightarrow> page_query \<Rightarrow> 'a list \<Rightarrow> error + 'a list" where
  "paginate_queryset page_size q object_list =
     (let n = num_pages page_size (length object_list) in
      case (case q of
              NoPage \<Rightarrow> Inr 1
            | PageNumber i \<Rightarrow> Inr i
            | PageLast \<Rightarrow> Inr (int n)
            | PageInvalid \<Rightarrow> Inl Http404) of
        Inl e \<Rightarrow> Inl e
      | Inr number \<Rightarrow>
          if number < 1 \<or> int n < number then Inl Http404
          else Inr (take page_size (drop ((nat number - 1) * page_size) object_list)))"

section \<open>Forms\<close>

text \<open>
  \<^verbatim>\<open>blog/forms.py\<close> is not among the sources. What a model form validates is
  therefore a parameter of the handlers: \<open>full_clean\<close> gives the validation messages
  of a bound form (none when the data is valid), \<open>construct_instance\<close> the model
  instance that \<^verbatim>\<open>form.save(commit=False)\<close> returns.
\<close>

record 'a model_form =
  full_clean :: "db \<Rightarrow> 'a form \<Rightarrow> string list"
  construct_instance :: "db \<Rightarrow> 'a form \<Rightarrow> 'a"

record forms =
  PostForm :: "post model_form"
  CommentForm :: "comment model_form"
  ProfileEditForm :: "user model_form"

definition is_bound :: "'a form \<Rightarrow> bool" where
  "is_bound f = (form_data f \<noteq> None \<or> form_files f \<noteq> None)"

definition errors :: "'a model_form \<Rightarrow> db \<Rightarrow> 'a form \<Rightarrow> string list" where
  "errors M d f = (if is_bound f then full_clean M d f else [])"

definition is_valid :: "'a model_form \<Rightarrow> db \<Rightarrow> 'a form \<Rightarrow> bool" where
  "is_valid M d f = (is_bound f \<and> errors M d f = [])"

text \<open>\<^verbatim>\<open>request.POST or None\<close>: an empty dictionary is falsy.\<close>

definition or_None :: "querydict \<Rightarrow> querydict option" where
  "or_None q = (if q = [] then None else Some q)"

text \<open>
  The three forms as the views build them from a request:
  \<^verbatim>\<open>PostForm(request.POST or None, request.FILES or None, instance=instance)\<close>,
  \<^verbatim>\<open>CommentForm(request.POST or None, instance=comment)\<close> and
  \<^verbatim>\<open>ProfileEditForm(request.POST, instance=profile)\<close>, and a form without data.
\<close>

definition post_form_of :: "request \<Rightarrow> post option \<Rightarrow> post form" where
  "post_form_of r instance =
     \<lparr>form_data = or_None (POST r), form_files = or_None (FILES r), form_instance = instance\<rparr>"

definition comment_form_of :: "request \<Rightarrow> comment option \<Rightarrow> comment form" where
  "comment_form_of r instance =
     \<lparr>form_data = or_None (POST r), form_files = None, form_instance = instance\<rparr>"

definition profile_form_of :: "request \<Rightarrow> user \<Rightarrow> user form" where
  "profile_form_of r profile =
     \<lparr>form_data = Some (POST r), form_files = None, form_instance = Some profile\<rparr>"

definition unbound_form :: "'a option \<Rightarrow> 'a form" where
  "unbound_form instance = \<lparr>form_data = None, form_files = None, form_instance = instance\<rparr>"

section \<open>Writes\<close>

text \<open>
  \<^verbatim>\<open>save()\<close> of an instance that came from the database updates its row; an
  instance without a primary key is inserted under the next key of the table.
\<close>

definition save_post :: "db \<Rightarrow> post option \<Rightarrow> post \<Rightarrow> db" where
  "save_post d instance new_post =
     (case instance of
        None \<Rightarrow>
          d\<lparr>posts := posts d @ [new_post\<lparr>post_id := Suc (post_seq d)\<rparr>],
            post_seq := Suc (post_seq d)\<rparr>
      | Some old \<Rightarrow>
          d\<lparr>posts := map (\<lambda>p. if post_id p = post_id old
                                then new_post\<lparr>post_id := post_id old\<rparr> else p) (posts d)\<rparr>)"

definition save_comment :: "db \<Rightarrow> comment option \<Rightarrow> comment \<Rightarrow> db" where
  "save_comment d instance new_comment =
     (case instance of
        None \<Rightarrow>
          d\<lparr>comments := comments d @ [new_comment\<lparr>comment_id := Suc (comment_seq d)\<rparr>],
            comment_seq := Suc (comment_seq d)\<rparr>
      | Some old \<Rightarrow>
          d\<lparr>comments := map (\<lambda>c. if comment_id c = comment_id old
                                   then new_comment\<lparr>comment_id := comment_id old\<rparr> else c)
                              (comments d)\<rparr>)"

definition save_user :: "db \<Rightarrow> user \<Rightarrow> user \<Rightarrow> db" where
  "save_user d old new_user =
     d\<lparr>users := map (\<lambda>u. if user_id u = user_id old
                           then new_user\<lparr>user_id := user_id old\<rparr> else u) (users d)\<rparr>"

text \<open>
  Modelled from the spec: the \<^verbatim>\<open>on_delete\<close> rule of \<^verbatim>\<open>Comment.post\<close> is declared in
  the absent \<^verbatim>\<open>blog/models.py\<close>. A comment belongs to one post, so deleting a post
  takes its comments with it.
\<close>

definition post_delete :: "db \<Rightarrow> post \<Rightarrow> db" where
  "post_delete d instance =
     d\<lparr>posts := filter (\<lambda>p. post_id p \<noteq> post_id instance) (posts d),
       comments := filter (\<lambda>c. comment_post c \<noteq> post_id instance) (comments d)\<rparr>"

definition comment_delete :: "db \<Rightarrow> comment \<Rightarrow> db" where
  "comment_delete d instance =
     d\<lparr>comments := filter (\<lambda>c. comment_id c \<noteq> comment_id instance) (comments d)\<rparr>"

section \<open>The list views\<close>

text \<open>
  \<^verbatim>\<open>View.dispatch\<close> of a class-based view that defines \<^verbatim>\<open>get\<close> only, as a
  \<^verbatim>\<open>ListView\<close> does: \<^verbatim>\<open>GET\<close> and \<^verbatim>\<open>HEAD\<close> run \<^verbatim>\<open>get\<close>, \<^verbatim>\<open>OPTIONS\<close> is answered
  with the allowed methods, and every other method with 405 before anything is looked
  up. The request handler has put \<^verbatim>\<open>request.method\<close> in upper case.
\<close>

definition allowed_methods :: "string list" where
  "allowed_methods = [''GET'', ''HEAD'', ''OPTIONS'']"

definition View_dispatch :: "db \<Rightarrow> request \<Rightarrow> result \<Rightarrow> result" where
  "View_dispatch d r get =
     (if request_method r = ''GET'' \<or> request_method r = ''HEAD'' then get
      else if request_method r = ''OPTIONS'' then Inr (HttpResponseOptions allowed_methods, d)
      else Inr (HttpResponseNotAllowed allowed_methods, d))"

text \<open>
  \<^verbatim>\<open>ListView.get\<close> answers with the view's template and the requested page of
  \<^verbatim>\<open>get_queryset()\<close>; \<^verbatim>\<open>get_context_data\<close> adds the view's own entries.
\<close>

definition HomePage_get_queryset :: "datetime \<Rightarrow> db \<Rightarrow> (post \<times> nat) list" where
  "HomePage_get_queryset now d =
     annotate_comment_count d
       (order_by_pub_date_desc
          (filter (\<lambda>p. is_published p \<and> pub_date p \<le> now \<and> post_category_is_published d p)
             (posts d)))"

definition HomePage_get :: "datetime \<Rightarrow> db \<Rightarrow> request \<Rightarrow> result" where
  "HomePage_get now d r =
     (case paginate_queryset PAGE_PAGINATOR (GET_page r) (HomePage_get_queryset now d) of
        Inl e \<Rightarrow> Inl e
      | Inr page \<Rightarrow>
          Inr (Render ''blog/index.html''
                 (IndexContext page
                    (length (filter (\<lambda>p. is_published p \<and> pub_date p \<le> now \<and>
                                          post_category_is_published d p) (posts d)))), d))"

definition HomePage :: "datetime \<Rightarrow> db \<Rightarrow> request \<Rightarrow> result" where
  "HomePage now d r = View_dispatch d r (HomePage_get now d r)"

definition get_category :: "db \<Rightarrow> string \<Rightarrow> error + category" where
  "get_category d category_slug = get_object_or_404 (\<lambda>c. slug c = category_slug) (categories d)"

definition CategoryListView_get_queryset ::
  "datetime \<Rightarrow> db \<Rightarrow> string \<Rightarrow> error + (post \<times> nat) list" where
  "CategoryListView_get_queryset now d category_slug =
     (case get_category d category_slug of
        Inl e \<Rightarrow> Inl e
      | Inr cat \<Rightarrow>
          if \<not> category_is_published cat then Inl Http404
          else Inr (annotate_comment_count d
                      (order_by_pub_date_desc
                         (filter (\<lambda>p. is_published p \<and> pub_date p \<le> now)
                            (filter (\<lambda>p. category p = Some (category_id cat)) (posts d))))))"

definition CategoryListView_get ::
  "datetime \<Rightarrow> db \<Rightarrow> request \<Rightarrow> string \<Rightarrow> result" where
  "CategoryListView_get now d r category_slug =
     (case CategoryListView_get_queryset now d category_slug of
        Inl e \<Rightarrow> Inl e
      | Inr object_list \<Rightarrow>
          (case paginate_queryset PAGE_PAGINATOR (GET_page r) object_list of
             Inl e \<Rightarrow> Inl e
           | Inr page \<Rightarrow>
               (case get_category d category_slug of
                  Inl e \<Rightarrow> Inl e
                | Inr cat \<Rightarrow> Inr (Render ''blog/category.html'' (CategoryContext page cat), d))))"

definition CategoryListView :: "datetime \<Rightarrow> db \<Rightarrow> request \<Rightarrow> string \<Rightarrow> result" where
  "CategoryListView now d r category_slug =
     View_dispatch d r (CategoryListView_get now d r category_slug)"

definition get_profile :: "db \<Rightarrow> string \<Rightarrow> error + user" where
  "get_profile d name = get_object_or_404 (\<lambda>u. username u = name) (users d)"

definition ProfileListView_get_queryset :: "db \<Rightarrow> string \<Rightarrow> error + (post \<times> nat) list" where
  "ProfileListView_get_queryset d name =
     (case get_profile d name of
        Inl e \<Rightarrow> Inl e
      | Inr profile \<Rightarrow>
          Inr (annotate_comment_count d
                 (order_by_pub_date_desc
                    (filter (\<lambda>p. author p = user_id profile) (posts d)))))"

definition ProfileListView_get :: "db \<Rightarrow> request \<Rightarrow> string \<Rightarrow> result" where
  "ProfileListView_get d r name =
     (case ProfileListView_get_queryset d name of
        Inl e \<Rightarrow> Inl e
      | Inr object_list \<Rightarrow>
          (case paginate_queryset PAGE_PAGINATOR (GET_page r) object_list of
             Inl e \<Rightarrow> Inl e
           | Inr page \<Rightarrow>
               (case get_profile d name of
                  Inl e \<Rightarrow> Inl e
                | Inr profile \<Rightarrow> Inr (Render ''blog/profile.html'' (ProfileContext page profile), d))))"

definition ProfileListView :: "db \<Rightarrow> request \<Rightarrow> string \<Rightarrow> result" where
  "ProfileListView d r name = View_dispatch d r (ProfileListView_get d r name)"

section \<open>The function views\<close>

text \<open>
  \<^verbatim>\<open>@login_required(login_url=...)\<close>: an anonymous requester is sent to the login
  page and the view does not run.
\<close>

definition login_required :: "string \<Rightarrow> (user \<Rightarrow> result) \<Rightarrow> db \<Rightarrow> request \<Rightarrow> result" where
  "login_required login_url view d r =
     (case user r of
        None \<Rightarrow> Inr (Redirect (LoginRedirect login_url (path r)), d)
      | Some u \<Rightarrow> view u)"

definition edit_profile :: "forms \<Rightarrow> db \<Rightarrow> request \<Rightarrow> result" where
  "edit_profile F d r =
     login_required ''/auth/login/''
       (\<lambda>profile.
          if request_method r = ''POST'' then
            (let form = profile_form_of r profile
             in if is_valid (ProfileEditForm F) d form then
                  (let saved = construct_instance (ProfileEditForm F) d form
                   in Inr (Redirect (Reverse (Profile (username saved))),
                           save_user d profile saved))
                else Inr (Render ''blog/user.html'' (UserContext profile form), d))
          else
            Inr (Render ''blog/user.html''
                   (UserContext profile (unbound_form (Some profile))), d))
       d r"

text \<open>
  The requester is the author of a row when the two users have the same primary key;
  an anonymous requester is nobody's author.
\<close>

definition user_ne :: "user option \<Rightarrow> nat \<Rightarrow> bool" where
  "user_ne u author_id = (case u of None \<Rightarrow> True | Some v \<Rightarrow> user_id v \<noteq> author_id)"

definition post_detail :: "datetime \<Rightarrow> db \<Rightarrow> request \<Rightarrow> nat \<Rightarrow> result" where
  "post_detail now d r pid =
     (case get_object_or_404 (\<lambda>p. post_id p = pid) (posts d) of
        Inl e \<Rightarrow> Inl e
      | Inr current_post \<Rightarrow>
          (case (if user_ne (user r) (author current_post)
                 then get_object_or_404
                        (\<lambda>p. post_id p = pid \<and> is_published p \<and> pub_date p \<le> now \<and>
                             post_category_is_published d p) (posts d)
                 else Inr current_post) of
             Inl e \<Rightarrow> Inl e
           | Inr shown \<Rightarrow>
               Inr (Render ''blog/detail.html''
                      (DetailContext shown (unbound_form None)
                         (filter (\<lambda>c. comment_post c = post_id shown) (comments d))), d)))"

text \<open>Lines 176 to 189 of \<^verbatim>\<open>create_post\<close>: the form, and the save when it is valid.\<close>

definition create_post_form :: "forms \<Rightarrow> db \<Rightarrow> request \<Rightarrow> user \<Rightarrow> post option \<Rightarrow> result" where
  "create_post_form F d r u instance =
     (let form = post_form_of r instance
      in if is_valid (PostForm F) d form then
           (let new_post = (construct_instance (PostForm F) d form)\<lparr>author := user_id u\<rparr>
            in Inr (Redirect (Reverse (Profile (username u))), save_post d instance new_post))
         else Inr (Render ''blog/create.html'' (CreateContext form), d))"

text \<open>
  \<^verbatim>\<open>if pk_post:\<close> is false for \<^verbatim>\<open>None\<close> (the route \<^verbatim>\<open>posts/create/\<close>) and for 0,
  which the route \<^verbatim>\<open>posts/<int:pk_post>/edit/\<close> accepts.
\<close>

definition create_post :: "forms \<Rightarrow> db \<Rightarrow> request \<Rightarrow> nat option \<Rightarrow> result" where
  "create_post F d r pk_post =
     login_required ''/auth/login/''
       (\<lambda>u. case pk_post of
               None \<Rightarrow> create_post_form F d r u None
             | Some k \<Rightarrow>
                 if k \<noteq> 0 then
                   (case get_object_or_404 (\<lambda>p. post_id p = k) (posts d) of
                      Inl e \<Rightarrow> Inl e
                    | Inr instance \<Rightarrow>
                        if user_id u \<noteq> author instance
                        then Inr (Redirect (Reverse (PostDetail (post_id instance))), d)
                        else create_post_form F d r u (Some instance))
                 else create_post_form F d r u None)
       d r"

definition delete_post :: "db \<Rightarrow> request \<Rightarrow> nat \<Rightarrow> result" where
  "delete_post d r pk_post =
     login_required ''/auth/login/''
       (\<lambda>u. case get_object_or_404 (\<lambda>p. post_id p = pk_post) (posts d) of
               Inl e \<Rightarrow> Inl e
             | Inr instance \<Rightarrow>
                 if user_id u \<noteq> author instance \<and> \<not> is_staff u
                 then Inr (Redirect (Reverse (PostDetail (post_id instance))), d)
                 else if request_method r = ''POST''
                 then Inr (Redirect (Reverse Index), post_delete d instance)
                 else Inr (Render ''blog/create.html''
                             (CreateContext (unbound_form (Some instance))), d))
       d r"

text \<open>Lines 224 to 240 of \<^verbatim>\<open>add_comment\<close>.\<close>

definition add_comment_form ::
  "forms \<Rightarrow> db \<Rightarrow> request \<Rightarrow> user \<Rightarrow> post \<Rightarrow> comment option \<Rightarrow> result" where
  "add_comment_form F d r u post0 instance =
     (let form = comment_form_of r instance
      in if request_method r = ''POST'' \<and> is_valid (CommentForm F) d form then
           (let new_comment = (construct_instance (CommentForm F) d form)
                                \<lparr>comment_author := user_id u, comment_post := post_id post0\<rparr>
            in Inr (Redirect (Reverse (PostDetail (post_id post0))),
                    save_comment d instance new_comment))
         else Inr (Render ''blog/comment.html'' (CommentContext form instance post0), d))"

definition add_comment :: "forms \<Rightarrow> db \<Rightarrow> request \<Rightarrow> nat \<Rightarrow> nat option \<Rightarrow> result" where
  "add_comment F d r pid comment_id0 =
     login_required ''/auth/login/''
       (\<lambda>u. case get_object_or_404 (\<lambda>p. post_id p = pid) (posts d) of
               Inl e \<Rightarrow> Inl e
             | Inr post0 \<Rightarrow>
                 (case comment_id0 of
                    None \<Rightarrow> add_comment_form F d r u post0 None
                  | Some k \<Rightarrow>
                      if k \<noteq> 0 then
                        (case get_object_or_404
                                (\<lambda>c. comment_id c = k \<and> comment_post c = post_id post0)
                                (comments d) of
                           Inl e \<Rightarrow> Inl e
                         | Inr instance \<Rightarrow>
                             if user_id u \<noteq> comment_author instance
                             then Inr (Redirect (Reverse (PostDetail (post_id post0))), d)
                             else add_comment_form F d r u post0 (Some instance))
                      else add_comment_form F d r u post0 None))
       d r"

definition delete_comment :: "db \<Rightarrow> request \<Rightarrow> nat \<Rightarrow> nat \<Rightarrow> result" where
  "delete_comment d r pid cid =
     login_required ''/auth/login/''
       (\<lambda>u. case get_object_or_404 (\<lambda>c. comment_id c = cid) (comments d) of
               Inl e \<Rightarrow> Inl e
             | Inr instance \<Rightarrow>
                 if user_id u \<noteq> comment_author instance
                 then Inr (Redirect (Reverse (PostDetail pid)), d)
                 else if request_method r = ''POST''
                 then Inr (Redirect (Reverse (PostDetail pid)), comment_delete d instance)
                 else Inr (Render ''blog/comment.html'' (DeleteCommentContext instance), d))
       d r"

section \<open>Routing\<close>

text \<open>
  An exception that leaves a view becomes an error response, and nothing was written
  before it was raised.
\<close>

definition respond :: "db \<Rightarrow> result \<Rightarrow> response \<times> db" where
  "respond d res =
     (case res of
        Inl Http404 \<Rightarrow> (HttpResponseNotFound, d)
      | Inl MultipleObjectsReturned \<Rightarrow> (HttpResponseServerError, d)
      | Inr x \<Rightarrow> x)"

text \<open>\<^verbatim>\<open>urlpatterns\<close>: the view of each route, with the arguments the route captures.\<close>

definition dispatch :: "forms \<Rightarrow> datetime \<Rightarrow> db \<Rightarrow> request \<Rightarrow> response \<times> db" where
  "dispatch F now d r =
     respond d
       (case path r of
          Index \<Rightarrow> HomePage now d r
        | CategoryPosts category_slug \<Rightarrow> CategoryListView now d r category_slug
        | Profile name \<Rightarrow> ProfileListView d r name
        | EditProfile \<Rightarrow> edit_profile F d r
        | PostDetail pid \<Rightarrow> post_detail now d r pid
        | CreatePost \<Rightarrow> create_post F d r None
        | EditPost pk_post \<Rightarrow> create_post F d r (Some pk_post)
        | DeletePost pk_post \<Rightarrow> delete_post d r pk_post
        | AddComment pid \<Rightarrow> add_comment F d r pid None
        | EditComment pid cid \<Rightarrow> add_comment F d r pid (Some cid)
        | DeleteComment pid cid \<Rightarrow> delete_comment d r pid cid)"

section \<open>Properties of requests and responses\<close>

text \<open>
  The visibility predicate of a post at a given time: it is published, its
  publication date has come, and its category is a published one.
\<close>

definition visible :: "datetime \<Rightarrow> db \<Rightarrow> post \<Rightarrow> bool" where
  "visible now d p =
     (is_published p \<and> pub_date p \<le> now \<and>
      (\<exists>c \<in> set (categories d). category p = Some (category_id c) \<and> category_is_published c))"

text \<open>The posts that a response of a list view shows.\<close>

fun rendered_posts :: "response \<Rightarrow> post list" where
  "rendered_posts (Render t (IndexContext page n)) = map fst page"
| "rendered_posts (Render t (CategoryContext page c)) = map fst page"
| "rendered_posts (Render t (ProfileContext page u)) = map fst page"
| "rendered_posts _ = []"

text \<open>The routes of the three list views.\<close>

fun list_route :: "url \<Rightarrow> bool" where
  "list_route Index = True"
| "list_route (CategoryPosts s) = True"
| "list_route (Profile name) = True"
| "list_route _ = False"

text \<open>The routes whose view changes data: every function view except the post detail page.\<close>

fun mutating :: "url \<Rightarrow> bool" where
  "mutating EditProfile = True"
| "mutating CreatePost = True"
| "mutating (EditPost k) = True"
| "mutating (DeletePost k) = True"
| "mutating (AddComment k) = True"
| "mutating (EditComment k j) = True"
| "mutating (DeleteComment k j) = True"
| "mutating _ = False"

text \<open>
  The request names a record that its view looks up and that is not in the database:
  a category by slug, a user by name, a post or a comment by id. The edit routes look
  up a nonzero id only, and the comment delete route looks up the comment only.
\<close>

fun names_missing_record :: "db \<Rightarrow> url \<Rightarrow> bool" where
  "names_missing_record d (CategoryPosts s) = (\<forall>c \<in> set (categories d). slug c \<noteq> s)"
| "names_missing_record d (Profile name) = (\<forall>u \<in> set (users d). username u \<noteq> name)"
| "names_missing_record d (PostDetail k) = (\<forall>p \<in> set (posts d). post_id p \<noteq> k)"
| "names_missing_record d (EditPost k) = (k \<noteq> 0 \<and> (\<forall>p \<in> set (posts d). post_id p \<noteq> k))"
| "names_missing_record d (DeletePost k) = (\<forall>p \<in> set (posts d). post_id p \<noteq> k)"
| "names_missing_record d (AddComment k) = (\<forall>p \<in> set (posts d). post_id p \<noteq> k)"
| "names_missing_record d (EditComment k j) =
     ((\<forall>p \<in> set (posts d). post_id p \<noteq> k) \<or>
      (j \<noteq> 0 \<and> (\<forall>c \<in> set (comments d). comment_id c \<noteq> j)))"
| "names_missing_record d (DeleteComment k j) = (\<forall>c \<in> set (comments d). comment_id c \<noteq> j)"
| "names_missing_record d _ = False"

section \<open>Example data\<close>

definition alice :: user where
  "alice = \<lparr>user_id = 1, username = ''alice'', is_staff = False\<rparr>"

definition bob :: user where
  "bob = \<lparr>user_id = 2, username = ''bob'', is_staff = False\<rparr>"

definition admin :: user where
  "admin = \<lparr>user_id = 3, username = ''admin'', is_staff = True\<rparr>"

definition travel :: category where
  "travel = \<lparr>category_id = 1, slug = ''travel'', category_title = ''Travel'',
             category_is_published = True\<rparr>"

definition hidden :: category where
  "hidden = \<lparr>category_id = 2, slug = ''hidden'', category_title = ''Hidden'',
             category_is_published = False\<rparr>"

text \<open>
  Four posts, read at time 1000: one that is visible, a draft, one dated in the future
  and one in an unpublished category.
\<close>

definition post1 :: post where
  "post1 = \<lparr>post_id = 1, post_title = ''Rome'', post_text = ''a'', post_image = [],
            pub_date = 100, is_published = True, author = 1, category = Some 1\<rparr>"

definition post2 :: post where
  "post2 = \<lparr>post_id = 2, post_title = ''Draft'', post_text = ''b'', post_image = [],
            pub_date = 200, is_published = False, author = 1, category = Some 1\<rparr>"

definition post3 :: post where
  "post3 = \<lparr>post_id = 3, post_title = ''Later'', post_text = ''c'', post_image = [],
            pub_date = 5000, is_published = True, author = 2, category = Some 1\<rparr>"

definition post4 :: post where
  "post4 = \<lparr>post_id = 4, post_title = ''Secret'', post_text = ''d'', post_image = [],
            pub_date = 300, is_published = True, author = 2, category = Some 2\<rparr>"

definition comment1 :: comment where
  "comment1 = \<lparr>comment_id = 1, comment_text = ''nice'', comment_author = 2,
               comment_post = 1, created_at = 150\<rparr>"

definition comment2 :: comment where
  "comment2 = \<lparr>comment_id = 2, comment_text = ''soon'', comment_author = 1,
               comment_post = 3, created_at = 160\<rparr>"

definition blog :: db where
  "blog = \<lparr>users = [alice, bob, admin], categories = [travel, hidden],
           posts = [post1, post2, post3, post4], comments = [comment1, comment2],
           post_seq = 4, comment_seq = 2\<rparr>"

text \<open>
  A second database: twelve visible posts of one author in one category, post \<open>i\<close>
  published at time \<open>10 * i\<close>, stored oldest first.
\<close>

definition entry :: "nat \<Rightarrow> post" where
  "entry i = \<lparr>post_id = i, post_title = ''Day'', post_text = [], post_image = [],
              pub_date = 10 * int i, is_published = True, author = 1, category = Some 1\<rparr>"

definition archive_posts :: "post list" where
  "archive_posts = map entry [1, 2, 3, 4, 5, 6, 7, 8, 9, 10, 11, 12]"

definition archive :: db where
  "archive = \<lparr>users = [alice], categories = [travel], posts = archive_posts, comments = [],
              post_seq = 12, comment_seq = 0\<rparr>"

definition http_get_page :: "user option \<Rightarrow> url \<Rightarrow> int \<Rightarrow> request" where
  "http_get_page u a n =
     \<lparr>user = u, request_method = ''GET'', POST = [], FILES = [], GET_page = PageNumber n,
      path = a\<rparr>"

text \<open>Forms that require one field each and leave the instance as it is.\<close>

definition required :: "string \<Rightarrow> 'a form \<Rightarrow> string list" where
  "required field f =
     (case form_data f of
        None \<Rightarrow> [''This field is required.'']
      | Some q \<Rightarrow> if map_of q field = None then [''This field is required.''] else [])"

definition blank_post :: post where
  "blank_post = \<lparr>post_id = 0, post_title = [], post_text = [], post_image = [],
                 pub_date = 0, is_published = True, author = 0, category = None\<rparr>"

definition blank_comment :: comment where
  "blank_comment = \<lparr>comment_id = 0, comment_text = [], comment_author = 0,
                    comment_post = 0, created_at = 0\<rparr>"

definition blank_user :: user where
  "blank_user = \<lparr>user_id = 0, username = [], is_staff = False\<rparr>"

definition simple_forms :: forms where
  "simple_forms =
     \<lparr>PostForm = \<lparr>full_clean = (\<lambda>d. required ''title''),
                   construct_instance =
                     (\<lambda>d f. case form_instance f of None \<Rightarrow> blank_post | Some p \<Rightarrow> p)\<rparr>,
      CommentForm = \<lparr>full_clean = (\<lambda>d. required ''text''),
                      construct_instance =
                        (\<lambda>d f. case form_instance f of None \<Rightarrow> blank_comment | Some c \<Rightarrow> c)\<rparr>,
      ProfileEditForm = \<lparr>full_clean = (\<lambda>d. required ''username''),
                          construct_instance =
                            (\<lambda>d f. case form_instance f of None \<Rightarrow> blank_user | Some u \<Rightarrow> u)\<rparr>\<rparr>"

definition http_get :: "user option \<Rightarrow> url \<Rightarrow> request" where
  "http_get u a = \<lparr>user = u, request_method = ''GET'', POST = [], FILES = [], GET_page = NoPage, path = a\<rparr>"

definition http_post :: "user option \<Rightarrow> url \<Rightarrow> querydict \<Rightarrow> request" where
  "http_post u a q = \<lparr>user = u, request_method = ''POST'', POST = q, FILES = [], GET_page = NoPage, path = a\<rparr>"

section \<open>Lookups\<close>

lemma get_object_or_404_missing:
  "\<forall>x \<in> set rows. \<not> P x \<Longrightarrow> get_object_or_404 P rows = Inl Http404"
  by (simp add: get_object_or_404_def filter_empty_conv[THEN iffD2] split: list.splits)

lemma get_object_or_404_found:
  "get_object_or_404 P rows = Inr x \<Longrightarrow> filter P rows = [x]"
  by (auto simp: get_object_or_404_def split: list.splits)

lemma get_object_or_404_sound:
  assumes "get_object_or_404 P rows = Inr x"
  shows "P x" and "x \<in> set rows"
proof -
  from assms have "set (filter P rows) = {x}"
    by (simp add: get_object_or_404_found)
  then show "P x" and "x \<in> set rows" by auto
qed

lemma get_object_or_404_refine_found:
  assumes "get_object_or_404 P rows = Inr x" and "Q x"
  shows "get_object_or_404 (\<lambda>y. P y \<and> Q y) rows = Inr x"
proof -
  have "filter (\<lambda>y. P y \<and> Q y) rows = filter Q (filter P rows)" by simp
  with assms show ?thesis
    by (simp add: get_object_or_404_found get_object_or_404_def del: filter_filter)
qed

lemma get_object_or_404_refine_missing:
  assumes "get_object_or_404 P rows = Inr x" and "\<not> Q x"
  shows "get_object_or_404 (\<lambda>y. P y \<and> Q y) rows = Inl Http404"
proof -
  have "filter (\<lambda>y. P y \<and> Q y) rows = filter Q (filter P rows)" by simp
  with assms show ?thesis
    by (simp add: get_object_or_404_found get_object_or_404_def del: filter_filter)
qed

lemma post_category_is_published_iff:
  "post_category_is_published d p \<longleftrightarrow>
     (\<exists>c \<in> set (categories d). category p = Some (category_id c) \<and> category_is_published c)"
  by (auto simp: post_category_is_published_def list_ex_iff split: option.splits)

lemma visible_iff:
  "visible now d p \<longleftrightarrow> is_published p \<and> pub_date p \<le> now \<and> post_category_is_published d p"
  by (simp add: visible_def post_category_is_published_iff)

section \<open>The login gate\<close>

text \<open>
  Claim C4. A request to a mutating route (post create, edit, delete; comment add,
  edit, delete; profile edit) from a requester who is not logged in is answered with
  a redirect to the login page \<^verbatim>\<open>/auth/login/\<close>, and the database stays as it was.
\<close>

theorem unauthenticated_mutation_rejected:
  assumes "user r = None" and "mutating (path r)"
  shows "dispatch F now d r = (Redirect (LoginRedirect ''/auth/login/'' (path r)), d)"
  using assms
  by (cases "path r")
     (simp_all add: dispatch_def respond_def login_required_def edit_profile_def create_post_def
        delete_post_def add_comment_def delete_comment_def)

theorem unauthenticated_mutation_rejected_witness:
  "user (http_post None (DeletePost 1) []) = None \<and>
   mutating (path (http_post None (DeletePost 1) [])) \<and>
   dispatch simple_forms 1000 blog (http_post None (DeletePost 1) [])
     = (Redirect (LoginRedirect ''/auth/login/'' (DeletePost 1)), blog)"
  using unauthenticated_mutation_rejected
          [of "http_post None (DeletePost 1) []" simple_forms 1000 blog]
  by (simp add: http_post_def)

section \<open>The post detail page\<close>

lemma post_detail_author:
  assumes "get_object_or_404 (\<lambda>p. post_id p = pid) (posts d) = Inr p"
    and "user r = Some u" and "user_id u = author p"
  shows "post_detail now d r pid =
           Inr (Render ''blog/detail.html''
                  (DetailContext p (unbound_form None)
                     (filter (\<lambda>c. comment_post c = post_id p) (comments d))), d)"
  using assms by (simp add: post_detail_def user_ne_def)

lemma post_detail_other_hidden:
  assumes "get_object_or_404 (\<lambda>p. post_id p = pid) (posts d) = Inr p"
    and "\<forall>u. user r = Some u \<longrightarrow> user_id u \<noteq> author p"
    and "\<not> visible now d p"
  shows "post_detail now d r pid = Inl Http404"
proof -
  from assms(2) have ne: "user_ne (user r) (author p)"
    by (simp add: user_ne_def split: option.splits)
  from assms(3) have "\<not> (is_published p \<and> pub_date p \<le> now \<and> post_category_is_published d p)"
    by (simp add: visible_iff)
  then have "get_object_or_404
          (\<lambda>q. post_id q = pid \<and> is_published q \<and> pub_date q \<le> now \<and>
               post_category_is_published d q) (posts d) = Inl Http404"
    by (rule get_object_or_404_refine_missing [OF assms(1)])
  then show ?thesis using assms(1) ne by (simp add: post_detail_def)
qed

lemma post_detail_other_visible:
  assumes "get_object_or_404 (\<lambda>p. post_id p = pid) (posts d) = Inr p"
    and "\<forall>u. user r = Some u \<longrightarrow> user_id u \<noteq> author p"
    and "visible now d p"
  shows "post_detail now d r pid =
           Inr (Render ''blog/detail.html''
                  (DetailContext p (unbound_form None)
                     (filter (\<lambda>c. comment_post c = post_id p) (comments d))), d)"
proof -
  from assms(2) have ne: "user_ne (user r) (author p)"
    by (simp add: user_ne_def split: option.splits)
  from assms(3) have "is_published p \<and> pub_date p \<le> now \<and> post_category_is_published d p"
    by (simp add: visible_iff)
  then have "get_object_or_404
          (\<lambda>q. post_id q = pid \<and> is_published q \<and> pub_date q \<le> now \<and>
               post_category_is_published d q) (posts d) = Inr p"
    by (rule get_object_or_404_refine_found [OF assms(1)])
  then show ?thesis using assms(1) ne by (simp add: post_detail_def)
qed

text \<open>
  Claim C7. The post detail page shows an existing post to its author whatever its
  publication state. To every other requester, logged in or not, a post that is
  unpublished, dated in the future or in an unpublished category (or in none) is
  answered with a 404.
\<close>

theorem post_detail_author_or_visible:
  assumes "path r = PostDetail pid"
    and "get_object_or_404 (\<lambda>p. post_id p = pid) (posts d) = Inr p"
  shows "((\<exists>u. user r = Some u \<and> user_id u = author p) \<longrightarrow>
            dispatch F now d r =
              (Render ''blog/detail.html''
                 (DetailContext p (unbound_form None)
                    (filter (\<lambda>c. comment_post c = post_id p) (comments d))), d)) \<and>
         ((\<forall>u. user r = Some u \<longrightarrow> user_id u \<noteq> author p) \<and>
          (\<not> is_published p \<or> now < pub_date p \<or>
           \<not> (\<exists>c \<in> set (categories d). category p = Some (category_id c) \<and> category_is_published c)) \<longrightarrow>
            dispatch F now d r = (HttpResponseNotFound, d))"
proof (intro conjI impI)
  assume "\<exists>u. user r = Some u \<and> user_id u = author p"
  then obtain u where "user r = Some u" "user_id u = author p" by blast
  from post_detail_author [OF assms(2) this, of now]
  show "dispatch F now d r =
          (Render ''blog/detail.html''
             (DetailContext p (unbound_form None)
                (filter (\<lambda>c. comment_post c = post_id p) (comments d))), d)"
    using assms(1) by (simp add: dispatch_def respond_def)
next
  assume h: "(\<forall>u. user r = Some u \<longrightarrow> user_id u \<noteq> author p) \<and>
          (\<not> is_published p \<or> now < pub_date p \<or>
           \<not> (\<exists>c \<in> set (categories d). category p = Some (category_id c) \<and> category_is_published c))"
  then have "\<not> visible now d p" by (auto simp: visible_def)
  from post_detail_other_hidden [OF assms(2) _ this, of r] h
  show "dispatch F now d r = (HttpResponseNotFound, d)"
    using assms(1) by (simp add: dispatch_def respond_def)
qed

theorem post_detail_author_or_visible_witness:
  "path (http_get (Some alice) (PostDetail 2)) = PostDetail 2 \<and>
   get_object_or_404 (\<lambda>p. post_id p = 2) (posts blog) = Inr post2 \<and>
   user (http_get (Some alice) (PostDetail 2)) = Some alice \<and> user_id alice = author post2 \<and>
   \<not> is_published post2 \<and>
   dispatch simple_forms 1000 blog (http_get (Some alice) (PostDetail 2)) =
     (Render ''blog/detail.html''
        (DetailContext post2 (unbound_form None) []), blog) \<and>
   path (http_get (Some bob) (PostDetail 2)) = PostDetail 2 \<and>
   user (http_get (Some bob) (PostDetail 2)) = Some bob \<and> user_id bob \<noteq> author post2 \<and>
   dispatch simple_forms 1000 blog (http_get (Some bob) (PostDetail 2)) = (HttpResponseNotFound, blog)"
proof -
  have g: "get_object_or_404 (\<lambda>p. post_id p = 2) (posts blog) = Inr post2"
    by (simp add: get_object_or_404_def blog_def post1_def post2_def post3_def post4_def)
  have a: "path (http_get (Some alice) (PostDetail 2)) = PostDetail 2"
    and b: "path (http_get (Some bob) (PostDetail 2)) = PostDetail 2"
    by (simp_all add: http_get_def)
  have c: "filter (\<lambda>c. comment_post c = post_id post2) (comments blog) = []"
    by (simp add: blog_def post2_def comment1_def comment2_def)
  show ?thesis
    using post_detail_author_or_visible [OF a g, of simple_forms 1000]
      post_detail_author_or_visible [OF b g, of simple_forms 1000] g c
    by (simp add: http_get_def alice_def bob_def post2_def)
qed

section \<open>Pages of the list views\<close>

lemma respond_simps [simp]:
  "respond d (Inr x) = x"
  "respond d (Inl Http404) = (HttpResponseNotFound, d)"
  "respond d (Inl MultipleObjectsReturned) = (HttpResponseServerError, d)"
  by (simp_all add: respond_def)

lemma View_dispatch_get:
  "request_method r = ''GET'' \<or> request_method r = ''HEAD'' \<Longrightarrow> View_dispatch d r g = g"
  by (auto simp: View_dispatch_def)

lemma View_dispatch_rendered:
  "rendered_posts (fst (respond d (View_dispatch d r g))) = [] \<or> View_dispatch d r g = g"
  by (simp add: View_dispatch_def respond_def)

lemma paginate_queryset_slice:
  "paginate_queryset n q xs = Inr page \<Longrightarrow> \<exists>k. page = take n (drop k xs)"
proof -
  assume "paginate_queryset n q xs = Inr page"
  then obtain number :: int where "page = take n (drop ((nat number - 1) * n) xs)"
    by (auto simp: paginate_queryset_def Let_def split: sum.splits if_splits)
  then show ?thesis ..
qed

lemma paginate_queryset_page:
  assumes "q = PageNumber (int n) \<or> (n = 1 \<and> q = NoPage)"
    and "1 \<le> n" and "0 < m" and "(n - 1) * m < max 1 (length xs)"
  shows "paginate_queryset m q xs = Inr (take m (drop ((n - 1) * m) xs))"
proof -
  from assms(2,4) have "n * m \<le> max 1 (length xs) + m - 1"
    by (cases n) auto
  with assms(3) have "n \<le> num_pages m (length xs)"
    by (simp add: num_pages_def less_eq_div_iff_mult_less_eq)
  with assms(1,2) show ?thesis
    by (auto simp: paginate_queryset_def)
qed

lemma annotate_comment_count_page:
  "take m (drop k (annotate_comment_count d ps)) = annotate_comment_count d (take m (drop k ps))"
  by (simp add: annotate_comment_count_def take_map drop_map)

lemma length_annotate_comment_count [simp]:
  "length (annotate_comment_count d ps) = length ps"
  by (simp add: annotate_comment_count_def)

lemma map_fst_annotate_comment_count [simp]:
  "map fst (annotate_comment_count d ps) = ps"
  by (simp add: annotate_comment_count_def comp_def)

lemma set_order_by_pub_date_desc [simp]:
  "set (order_by_pub_date_desc ps) = set ps"
  by (simp add: order_by_pub_date_desc_def)

lemma length_order_by_pub_date_desc [simp]:
  "length (order_by_pub_date_desc ps) = length ps"
  by (simp add: order_by_pub_date_desc_def)

lemma mset_order_by_pub_date_desc:
  "mset (order_by_pub_date_desc ps) = mset ps"
  by (simp add: order_by_pub_date_desc_def)

lemma sorted_order_by_pub_date_desc:
  "sorted_wrt (\<lambda>a b. pub_date b \<le> pub_date a) (order_by_pub_date_desc ps)"
proof -
  have "sorted (map (\<lambda>p. - pub_date p) (sort_key (\<lambda>p. - pub_date p) ps))"
    by (rule sorted_sort_key)
  then show ?thesis
    by (simp add: order_by_pub_date_desc_def sorted_map)
qed

lemma filter_visible:
  "filter (\<lambda>p. is_published p \<and> pub_date p \<le> now \<and> post_category_is_published d p) ps
     = filter (visible now d) ps"
  by (rule filter_cong) (simp_all add: visible_iff)

lemma HomePage_page:
  "\<exists>k. rendered_posts (fst (respond d (HomePage now d r))) =
         take PAGE_PAGINATOR (drop k (order_by_pub_date_desc (filter (visible now d) (posts d))))"
proof -
  let ?qs = "order_by_pub_date_desc (filter (visible now d) (posts d))"
  have none: "rendered_posts (fst (respond d (HomePage now d r))) = [] \<Longrightarrow> ?thesis"
    by (metis drop_all order_refl take_Nil)
  from View_dispatch_rendered [of d r "HomePage_get now d r"]
  show ?thesis
  proof
    assume "rendered_posts (fst (respond d (View_dispatch d r (HomePage_get now d r)))) = []"
    then show ?thesis by (intro none) (simp add: HomePage_def)
  next
    assume g: "View_dispatch d r (HomePage_get now d r) = HomePage_get now d r"
    show ?thesis
    proof (cases "paginate_queryset PAGE_PAGINATOR (GET_page r) (HomePage_get_queryset now d)")
      case (Inl e)
      with g show ?thesis
        by (intro none, cases e) (simp_all add: HomePage_def HomePage_get_def respond_def)
    next
      case (Inr page)
      from paginate_queryset_slice [OF this] obtain k
        where "page = take PAGE_PAGINATOR (drop k (HomePage_get_queryset now d))" ..
      then have "map fst page = take PAGE_PAGINATOR (drop k ?qs)"
        by (simp add: HomePage_get_queryset_def filter_visible annotate_comment_count_page)
      with Inr g show ?thesis
        by (auto simp: HomePage_def HomePage_get_def respond_def)
    qed
  qed
qed

lemma CategoryListView_page:
  "rendered_posts (fst (respond d (CategoryListView now d r s))) = [] \<or>
   (\<exists>k cat. get_category d s = Inr cat \<and> category_is_published cat \<and>
      rendered_posts (fst (respond d (CategoryListView now d r s))) =
        take PAGE_PAGINATOR (drop k (order_by_pub_date_desc
          (filter (\<lambda>p. is_published p \<and> pub_date p \<le> now)
             (filter (\<lambda>p. category p = Some (category_id cat)) (posts d))))))"
proof (cases "CategoryListView now d r s = CategoryListView_get now d r s")
  case False
  with View_dispatch_rendered [of d r "CategoryListView_get now d r s"]
  show ?thesis by (simp add: CategoryListView_def)
next
  case same: True
  show ?thesis
  proof (cases "CategoryListView_get now d r s")
    case (Inl e)
    with same show ?thesis by (cases e) (simp_all add: respond_def)
  next
    case (Inr x)
    then obtain cat object_list page
      where c: "get_category d s = Inr cat" "category_is_published cat"
        and q: "object_list = annotate_comment_count d (order_by_pub_date_desc
                  (filter (\<lambda>p. is_published p \<and> pub_date p \<le> now)
                     (filter (\<lambda>p. category p = Some (category_id cat)) (posts d))))"
        and p: "paginate_queryset PAGE_PAGINATOR (GET_page r) object_list = Inr page"
        and x: "x = (Render ''blog/category.html'' (CategoryContext page cat), d)"
      by (auto simp: CategoryListView_get_def CategoryListView_get_queryset_def
            split: sum.splits if_splits simp del: filter_filter)
    from paginate_queryset_slice [OF p] obtain k
      where "page = take PAGE_PAGINATOR (drop k object_list)" ..
    then have "map fst page = take PAGE_PAGINATOR (drop k (map fst object_list))"
      by (simp add: take_map drop_map)
    with Inr c q x same show ?thesis
      by (auto simp: respond_def simp del: filter_filter)
  qed
qed

lemma ProfileListView_page:
  "rendered_posts (fst (respond d (ProfileListView d r name))) = [] \<or>
   (\<exists>k profile. get_profile d name = Inr profile \<and>
      rendered_posts (fst (respond d (ProfileListView d r name))) =
        take PAGE_PAGINATOR (drop k (order_by_pub_date_desc
          (filter (\<lambda>p. author p = user_id profile) (posts d)))))"
proof (cases "ProfileListView d r name = ProfileListView_get d r name")
  case False
  with View_dispatch_rendered [of d r "ProfileListView_get d r name"]
  show ?thesis by (simp add: ProfileListView_def)
next
  case same: True
  show ?thesis
  proof (cases "ProfileListView_get d r name")
    case (Inl e)
    with same show ?thesis by (cases e) (simp_all add: respond_def)
  next
    case (Inr x)
    then obtain profile object_list page
      where c: "get_profile d name = Inr profile"
        and q: "object_list = annotate_comment_count d (order_by_pub_date_desc
                  (filter (\<lambda>p. author p = user_id profile) (posts d)))"
        and p: "paginate_queryset PAGE_PAGINATOR (GET_page r) object_list = Inr page"
        and x: "x = (Render ''blog/profile.html'' (ProfileContext page profile), d)"
      by (auto simp: ProfileListView_get_def ProfileListView_get_queryset_def split: sum.splits)
    from paginate_queryset_slice [OF p] obtain k
      where "page = take PAGE_PAGINATOR (drop k object_list)" ..
    then have "map fst page = take PAGE_PAGINATOR (drop k (map fst object_list))"
      by (simp add: take_map drop_map)
    with Inr c q x same show ?thesis
      by (auto simp: respond_def)
  qed
qed

lemma in_page_D: "p \<in> set (take n (drop k xs)) \<Longrightarrow> p \<in> set xs"
  by (meson in_set_dropD in_set_takeD)

lemma sorted_page:
  "sorted_wrt (\<lambda>a b. pub_date b \<le> pub_date a)
     (take n (drop k (order_by_pub_date_desc ps)))"
  by (intro sorted_wrt_take sorted_wrt_drop sorted_order_by_pub_date_desc)

text \<open>The exact answer of each list view to a request for an existing page.\<close>

lemma HomePage_exact:
  assumes "request_method r = ''GET'' \<or> request_method r = ''HEAD''"
    and "GET_page r = PageNumber (int n) \<or> (n = 1 \<and> GET_page r = NoPage)" and "1 \<le> n"
    and "(n - 1) * 10 < max 1 (length (filter (visible now d) (posts d)))"
  shows "HomePage now d r =
           Inr (Render ''blog/index.html''
                  (IndexContext
                     (annotate_comment_count d
                        (take 10 (drop ((n - 1) * 10)
                           (order_by_pub_date_desc (filter (visible now d) (posts d))))))
                     (length (filter (visible now d) (posts d)))), d)"
proof -
  have "paginate_queryset 10 (GET_page r) (HomePage_get_queryset now d) =
          Inr (take 10 (drop ((n - 1) * 10) (HomePage_get_queryset now d)))"
    using assms(2,3,4)
    by (intro paginate_queryset_page) (simp_all add: HomePage_get_queryset_def filter_visible)
  then show ?thesis
    using assms(1)
    by (simp add: HomePage_def View_dispatch_get HomePage_get_def PAGE_PAGINATOR_def
          HomePage_get_queryset_def filter_visible annotate_comment_count_page)
qed

lemma CategoryListView_exact:
  assumes "request_method r = ''GET'' \<or> request_method r = ''HEAD''"
    and "GET_page r = PageNumber (int n) \<or> (n = 1 \<and> GET_page r = NoPage)" and "1 \<le> n"
    and "get_category d s = Inr cat" and "category_is_published cat"
    and "(n - 1) * 10 < max 1 (length (filter (\<lambda>p. category p = Some (category_id cat) \<and>
                                   is_published p \<and> pub_date p \<le> now) (posts d)))"
  shows "CategoryListView now d r s =
           Inr (Render ''blog/category.html''
                  (CategoryContext
                     (annotate_comment_count d
                        (take 10 (drop ((n - 1) * 10)
                           (order_by_pub_date_desc
                              (filter (\<lambda>p. category p = Some (category_id cat) \<and>
                                   is_published p \<and> pub_date p \<le> now) (posts d))))))
                     cat), d)"
proof -
  let ?qs = "filter (\<lambda>p. category p = Some (category_id cat) \<and>
               is_published p \<and> pub_date p \<le> now) (posts d)"
  have q: "CategoryListView_get_queryset now d s =
             Inr (annotate_comment_count d (order_by_pub_date_desc ?qs))"
    using assms(4,5) by (simp add: CategoryListView_get_queryset_def)
  have "paginate_queryset 10 (GET_page r) (annotate_comment_count d (order_by_pub_date_desc ?qs))
          = Inr (take 10 (drop ((n - 1) * 10)
                   (annotate_comment_count d (order_by_pub_date_desc ?qs))))"
    using assms(2,3,6) by (intro paginate_queryset_page) simp_all
  with q assms(1,4) show ?thesis
    by (simp add: CategoryListView_def View_dispatch_get CategoryListView_get_def
          PAGE_PAGINATOR_def annotate_comment_count_page)
qed

lemma ProfileListView_exact:
  assumes "request_method r = ''GET'' \<or> request_method r = ''HEAD''"
    and "GET_page r = PageNumber (int n) \<or> (n = 1 \<and> GET_page r = NoPage)" and "1 \<le> n"
    and "get_profile d name = Inr u"
    and "(n - 1) * 10 < max 1 (length (filter (\<lambda>p. author p = user_id u) (posts d)))"
  shows "ProfileListView d r name =
           Inr (Render ''blog/profile.html''
                  (ProfileContext
                     (annotate_comment_count d
                        (take 10 (drop ((n - 1) * 10)
                           (order_by_pub_date_desc
                              (filter (\<lambda>p. author p = user_id u) (posts d))))))
                     u), d)"
proof -
  let ?qs = "filter (\<lambda>p. author p = user_id u) (posts d)"
  have q: "ProfileListView_get_queryset d name =
             Inr (annotate_comment_count d (order_by_pub_date_desc ?qs))"
    using assms(4) by (simp add: ProfileListView_get_queryset_def)
  have "paginate_queryset 10 (GET_page r) (annotate_comment_count d (order_by_pub_date_desc ?qs))
          = Inr (take 10 (drop ((n - 1) * 10)
                   (annotate_comment_count d (order_by_pub_date_desc ?qs))))"
    using assms(2,3,5) by (intro paginate_queryset_page) simp_all
  with q assms(1,4) show ?thesis
    by (simp add: ProfileListView_def View_dispatch_get ProfileListView_get_def
          PAGE_PAGINATOR_def annotate_comment_count_page)
qed

lemma paginate_example_third_page:
  "paginate_queryset PAGE_PAGINATOR (PageNumber 3) [0 ..< 25] = Inr [20, 21, 22, 23, 24::nat]"
  by (simp add: paginate_queryset_def num_pages_def PAGE_PAGINATOR_def upt_rec)

lemma paginate_example_out_of_range:
  "paginate_queryset PAGE_PAGINATOR (PageNumber 4) [0 ..< (25::nat)] = Inl Http404"
  by (simp add: paginate_queryset_def num_pages_def PAGE_PAGINATOR_def)

lemma paginate_example_default:
  "paginate_queryset PAGE_PAGINATOR NoPage [0 ..< (25::nat)] = Inr [0,1,2,3,4,5,6,7,8,9]"
  by (simp add: paginate_queryset_def num_pages_def PAGE_PAGINATOR_def upt_rec)

lemmas ex_defs = blog_def alice_def bob_def admin_def travel_def hidden_def post1_def post2_def
  post3_def post4_def comment1_def comment2_def http_get_def http_post_def

lemma index_example:
  "rendered_posts (fst (dispatch simple_forms 1000 blog (http_get None Index))) = [post1]"
  by (simp add: dispatch_def respond_def HomePage_def View_dispatch_def HomePage_get_def
        HomePage_get_queryset_def
        paginate_queryset_def num_pages_def PAGE_PAGINATOR_def order_by_pub_date_desc_def
        annotate_comment_count_def post_category_is_published_def ex_defs)

lemma category_example:
  "rendered_posts (fst (dispatch simple_forms 1000 blog (http_get None (CategoryPosts ''travel''))))
     = [post1]"
  by (simp add: dispatch_def respond_def CategoryListView_def View_dispatch_def
        CategoryListView_get_def CategoryListView_get_queryset_def
        get_category_def get_object_or_404_def
        paginate_queryset_def num_pages_def PAGE_PAGINATOR_def order_by_pub_date_desc_def
        annotate_comment_count_def ex_defs)

lemma profile_example:
  "rendered_posts (fst (dispatch simple_forms 1000 blog (http_get (Some alice) (Profile ''alice''))))
     = [post2, post1]"
  by (simp add: dispatch_def respond_def ProfileListView_def View_dispatch_def
        ProfileListView_get_def ProfileListView_get_queryset_def
        get_profile_def get_object_or_404_def
        paginate_queryset_def num_pages_def PAGE_PAGINATOR_def order_by_pub_date_desc_def
        annotate_comment_count_def ex_defs)

text \<open>
  What the profile feed shows to a visitor who is not logged in: bob's post dated in
  the future and his post in an unpublished category, each of which the post detail
  page refuses to the same visitor.
\<close>

lemma profile_feed_anonymous_example:
  "rendered_posts (fst (dispatch simple_forms 1000 blog (http_get None (Profile ''bob''))))
     = [post3, post4] \<and>
   \<not> visible 1000 blog post3 \<and> \<not> visible 1000 blog post4 \<and>
   fst (dispatch simple_forms 1000 blog (http_get None (PostDetail 3))) = HttpResponseNotFound \<and>
   fst (dispatch simple_forms 1000 blog (http_get None (PostDetail 4))) = HttpResponseNotFound"
  by (simp add: dispatch_def respond_def ProfileListView_def View_dispatch_def
        ProfileListView_get_def ProfileListView_get_queryset_def
        get_profile_def get_object_or_404_def post_detail_def user_ne_def
        post_category_is_published_def visible_def
        paginate_queryset_def num_pages_def PAGE_PAGINATOR_def order_by_pub_date_desc_def
        annotate_comment_count_def ex_defs)

lemma post_method_list_view_example:
  "dispatch simple_forms 1000 blog (http_post None (CategoryPosts ''food'') [])
     = (HttpResponseNotAllowed [''GET'', ''HEAD'', ''OPTIONS''], blog)"
  by (simp add: dispatch_def respond_def CategoryListView_def View_dispatch_def
        allowed_methods_def http_post_def)

section \<open>Visibility in the list views\<close>

text \<open>
  Claim C1, amended. Every post on a page of the home feed or of a category feed is a
  post of the database that satisfies the visibility predicate at request time: it is
  published, its publication date is not later than the current time, and its
  category is published. Every post on a page of the profile feed that a user
  requests of their own profile is a post of the database written by that user; such
  a post need not satisfy the visibility predicate.
\<close>

theorem listing_views_visibility:
  assumes "p \<in> set (rendered_posts (fst (dispatch F now d r)))"
  shows "(path r = Index \<longrightarrow> p \<in> set (posts d) \<and> visible now d p) \<and>
         (\<forall>s. path r = CategoryPosts s \<longrightarrow> p \<in> set (posts d) \<and> visible now d p) \<and>
         (\<forall>name v. path r = Profile name \<longrightarrow> user r = Some v \<longrightarrow>
            v \<in> set (users d) \<longrightarrow> username v = name \<longrightarrow>
            p \<in> set (posts d) \<and> author p = user_id v)"
proof (intro conjI allI impI)
  assume "path r = Index"
  with assms HomePage_page [of d now r]
  show "p \<in> set (posts d)" and "visible now d p"
    by (auto simp: dispatch_def dest!: in_page_D)
next
  fix s
  assume "path r = CategoryPosts s"
  with assms have "p \<in> set (rendered_posts (fst (respond d (CategoryListView now d r s))))"
    by (simp add: dispatch_def)
  with CategoryListView_page [of d now r s] obtain cat
    where c: "get_category d s = Inr cat" "category_is_published cat"
      and p: "p \<in> set (posts d)" "is_published p" "pub_date p \<le> now"
             "category p = Some (category_id cat)"
    by (auto dest!: in_page_D)
  from c(1) have "cat \<in> set (categories d)"
    unfolding get_category_def by (rule get_object_or_404_sound)
  with c p show "p \<in> set (posts d)" and "visible now d p"
    by (auto simp: visible_def)
next
  fix name v
  assume a: "path r = Profile name" and v: "v \<in> set (users d)" "username v = name"
  from a assms have "p \<in> set (rendered_posts (fst (respond d (ProfileListView d r name))))"
    by (simp add: dispatch_def)
  with ProfileListView_page [of d r name] obtain profile
    where c: "get_profile d name = Inr profile"
      and p: "p \<in> set (posts d)" "author p = user_id profile"
    by (auto dest!: in_page_D)
  from c have "filter (\<lambda>u. username u = name) (users d) = [profile]"
    unfolding get_profile_def by (rule get_object_or_404_found)
  moreover from v have "v \<in> set (filter (\<lambda>u. username u = name) (users d))" by simp
  ultimately have "v = profile" by simp
  with p show "p \<in> set (posts d)" and "author p = user_id v" by simp_all
qed

theorem listing_views_visibility_witness:
  "post1 \<in> set (rendered_posts (fst (dispatch simple_forms 1000 blog (http_get None Index)))) \<and>
   path (http_get None Index) = Index \<and> visible 1000 blog post1 \<and>
   post1 \<in> set (rendered_posts
      (fst (dispatch simple_forms 1000 blog (http_get None (CategoryPosts ''travel''))))) \<and>
   post2 \<in> set (rendered_posts
      (fst (dispatch simple_forms 1000 blog (http_get (Some alice) (Profile ''alice''))))) \<and>
   user (http_get (Some alice) (Profile ''alice'')) = Some alice \<and>
   alice \<in> set (users blog) \<and> username alice = ''alice'' \<and>
   author post2 = user_id alice \<and> post2 \<in> set (posts blog)"
proof -
  have a: "post1 \<in> set (rendered_posts (fst (dispatch simple_forms 1000 blog (http_get None Index))))"
    by (simp add: index_example)
  have b: "post1 \<in> set (rendered_posts
      (fst (dispatch simple_forms 1000 blog (http_get None (CategoryPosts ''travel'')))))"
    by (simp add: category_example)
  have c: "post2 \<in> set (rendered_posts
      (fst (dispatch simple_forms 1000 blog (http_get (Some alice) (Profile ''alice'')))))"
    by (simp add: profile_example)
  have f: "alice \<in> set (users blog)" "username alice = ''alice''"
    by (simp_all add: blog_def alice_def)
  with a b c listing_views_visibility [OF a] listing_views_visibility [OF b]
    listing_views_visibility [OF c]
  show ?thesis by (simp add: http_get_def)
qed

theorem profile_feed_counterexample:
  "\<not> (\<forall>p \<in> set (rendered_posts
        (fst (dispatch simple_forms 1000 blog (http_get (Some alice) (Profile ''alice''))))).
        visible 1000 blog p)"
  by (simp add: profile_example visible_def post2_def)

section \<open>Order and size of a page\<close>

lemma archive_visible: "filter (visible 1000 archive) (posts archive) = archive_posts"
  by (simp add: archive_def archive_posts_def visible_def entry_def travel_def)

lemma archive_category:
  "filter (\<lambda>p. category p = Some (category_id travel) \<and> is_published p \<and> pub_date p \<le> 1000)
     (posts archive) = archive_posts"
  by (simp add: archive_def archive_posts_def entry_def travel_def)

lemma archive_profile:
  "filter (\<lambda>p. author p = user_id alice) (posts archive) = archive_posts"
  by (simp add: archive_def archive_posts_def entry_def alice_def)

lemma archive_order: "order_by_pub_date_desc archive_posts = rev archive_posts"
  by (simp add: order_by_pub_date_desc_def archive_posts_def entry_def)

lemma archive_length: "length archive_posts = 12"
  by (simp add: archive_posts_def)

lemma archive_pages:
  "map post_id (take 10 (rev archive_posts)) = [12, 11, 10, 9, 8, 7, 6, 5, 4, 3]"
  "map post_id (take 10 (drop 10 (rev archive_posts))) = [2, 1]"
  by (simp_all add: archive_posts_def entry_def)

lemma archive_lookups:
  "get_category archive ''travel'' = Inr travel" "category_is_published travel"
  "get_profile archive ''alice'' = Inr alice"
  by (simp_all add: get_category_def get_profile_def get_object_or_404_def archive_def
        travel_def alice_def)

text \<open>
  Claim C9. Each of the three list views answers a \<^verbatim>\<open>GET\<close> (or \<^verbatim>\<open>HEAD\<close>) request for
  page \<open>n\<close> of its feed with exactly the rows \<open>10 * (n - 1)\<close> up to \<open>10 * n\<close> of its
  posts in the order of \<^verbatim>\<open>order_by("-pub_date")\<close>, which is a rearrangement of the
  posts with the publication dates descending. Whatever the request, the posts on a
  page of a list view are in that order and are at most 10.
\<close>

theorem listing_views_ordered_and_paged:
  "((request_method r = ''GET'' \<or> request_method r = ''HEAD'') \<and>
    (GET_page r = PageNumber (int n) \<or> (n = 1 \<and> GET_page r = NoPage)) \<and> 1 \<le> n \<longrightarrow>
      (path r = Index \<longrightarrow>
         (n - 1) * 10 < max 1 (length (filter (visible now d) (posts d))) \<longrightarrow>
         dispatch F now d r =
           (Render ''blog/index.html''
              (IndexContext
                 (annotate_comment_count d
                    (take 10 (drop ((n - 1) * 10)
                       (order_by_pub_date_desc (filter (visible now d) (posts d))))))
                 (length (filter (visible now d) (posts d)))), d)) \<and>
      (\<forall>s cat. path r = CategoryPosts s \<longrightarrow> get_category d s = Inr cat \<longrightarrow>
         category_is_published cat \<longrightarrow>
         (n - 1) * 10 < max 1 (length (filter (\<lambda>p. category p = Some (category_id cat) \<and>
                                        is_published p \<and> pub_date p \<le> now) (posts d))) \<longrightarrow>
         dispatch F now d r =
           (Render ''blog/category.html''
              (CategoryContext
                 (annotate_comment_count d
                    (take 10 (drop ((n - 1) * 10)
                       (order_by_pub_date_desc
                          (filter (\<lambda>p. category p = Some (category_id cat) \<and>
                                        is_published p \<and> pub_date p \<le> now) (posts d))))))
                 cat), d)) \<and>
      (\<forall>name u. path r = Profile name \<longrightarrow> get_profile d name = Inr u \<longrightarrow>
         (n - 1) * 10 < max 1 (length (filter (\<lambda>p. author p = user_id u) (posts d))) \<longrightarrow>
         dispatch F now d r =
           (Render ''blog/profile.html''
              (ProfileContext
                 (annotate_comment_count d
                    (take 10 (drop ((n - 1) * 10)
                       (order_by_pub_date_desc
                          (filter (\<lambda>p. author p = user_id u) (posts d))))))
                 u), d))) \<and>
   (\<forall>ps. sorted_wrt (\<lambda>a b. pub_date b \<le> pub_date a) (order_by_pub_date_desc ps) \<and>
         mset (order_by_pub_date_desc ps) = mset ps) \<and>
   (list_route (path r) \<longrightarrow>
      sorted_wrt (\<lambda>a b. pub_date b \<le> pub_date a) (rendered_posts (fst (dispatch F now d r))) \<and>
      length (rendered_posts (fst (dispatch F now d r))) \<le> 10)"
proof (intro conjI allI impI)
  assume a: "(request_method r = ''GET'' \<or> request_method r = ''HEAD'') \<and>
    (GET_page r = PageNumber (int n) \<or> (n = 1 \<and> GET_page r = NoPage)) \<and> 1 \<le> n"
  then have m: "request_method r = ''GET'' \<or> request_method r = ''HEAD''"
    and q: "GET_page r = PageNumber (int n) \<or> (n = 1 \<and> GET_page r = NoPage)"
    and n: "1 \<le> n" by simp_all
  {
    assume "path r = Index"
      "(n - 1) * 10 < max 1 (length (filter (visible now d) (posts d)))"
    then show "dispatch F now d r =
           (Render ''blog/index.html''
              (IndexContext
                 (annotate_comment_count d
                    (take 10 (drop ((n - 1) * 10)
                       (order_by_pub_date_desc (filter (visible now d) (posts d))))))
                 (length (filter (visible now d) (posts d)))), d)"
      by (simp add: dispatch_def HomePage_exact [OF m q n])
  }
  {
    fix s cat
    assume "path r = CategoryPosts s" "get_category d s = Inr cat" "category_is_published cat"
      "(n - 1) * 10 < max 1 (length (filter (\<lambda>p. category p = Some (category_id cat) \<and>
                                        is_published p \<and> pub_date p \<le> now) (posts d)))"
    then show "dispatch F now d r =
           (Render ''blog/category.html''
              (CategoryContext
                 (annotate_comment_count d
                    (take 10 (drop ((n - 1) * 10)
                       (order_by_pub_date_desc
                          (filter (\<lambda>p. category p = Some (category_id cat) \<and>
                                        is_published p \<and> pub_date p \<le> now) (posts d))))))
                 cat), d)"
      by (simp add: dispatch_def CategoryListView_exact [OF m q n])
  }
  {
    fix name u
    assume "path r = Profile name" "get_profile d name = Inr u"
      "(n - 1) * 10 < max 1 (length (filter (\<lambda>p. author p = user_id u) (posts d)))"
    then show "dispatch F now d r =
           (Render ''blog/profile.html''
              (ProfileContext
                 (annotate_comment_count d
                    (take 10 (drop ((n - 1) * 10)
                       (order_by_pub_date_desc
                          (filter (\<lambda>p. author p = user_id u) (posts d))))))
                 u), d)"
      by (simp add: dispatch_def ProfileListView_exact [OF m q n])
  }
next
  fix ps
  show "sorted_wrt (\<lambda>a b. pub_date b \<le> pub_date a) (order_by_pub_date_desc ps)"
    by (rule sorted_order_by_pub_date_desc)
  show "mset (order_by_pub_date_desc ps) = mset ps"
    by (rule mset_order_by_pub_date_desc)
next
  assume l: "list_route (path r)"
  have "\<exists>k ps. rendered_posts (fst (dispatch F now d r)) =
          take PAGE_PAGINATOR (drop k (order_by_pub_date_desc ps))"
  proof (cases "path r")
    case Index
    with HomePage_page [of d now r] show ?thesis
      by (auto simp: dispatch_def)
  next
    case (CategoryPosts s)
    with CategoryListView_page [of d now r s] show ?thesis
      by (auto simp: dispatch_def) (metis take_Nil drop_all order_refl)
  next
    case (Profile name)
    with ProfileListView_page [of d r name] show ?thesis
      by (auto simp: dispatch_def) (metis take_Nil drop_all order_refl)
  qed (insert l, simp_all)
  then obtain k ps where *: "rendered_posts (fst (dispatch F now d r)) =
          take PAGE_PAGINATOR (drop k (order_by_pub_date_desc ps))" by blast
  show "sorted_wrt (\<lambda>a b. pub_date b \<le> pub_date a) (rendered_posts (fst (dispatch F now d r)))"
    unfolding * by (rule sorted_page)
  show "length (rendered_posts (fst (dispatch F now d r))) \<le> 10"
    unfolding * by (simp add: PAGE_PAGINATOR_def)
qed

theorem listing_views_ordered_and_paged_witness:
  "map post_id (rendered_posts (fst (dispatch simple_forms 1000 archive (http_get None Index))))
     = [12, 11, 10, 9, 8, 7, 6, 5, 4, 3] \<and>
   map post_id (rendered_posts
       (fst (dispatch simple_forms 1000 archive (http_get_page None Index 2))))
     = [2, 1] \<and>
   map post_id (rendered_posts
       (fst (dispatch simple_forms 1000 archive (http_get None (CategoryPosts ''travel'')))))
     = [12, 11, 10, 9, 8, 7, 6, 5, 4, 3] \<and>
   map post_id (rendered_posts
       (fst (dispatch simple_forms 1000 archive (http_get_page None (CategoryPosts ''travel'') 2))))
     = [2, 1] \<and>
   map post_id (rendered_posts
       (fst (dispatch simple_forms 1000 archive (http_get None (Profile ''alice'')))))
     = [12, 11, 10, 9, 8, 7, 6, 5, 4, 3] \<and>
   map post_id (rendered_posts
       (fst (dispatch simple_forms 1000 archive (http_get_page None (Profile ''alice'') 2))))
     = [2, 1] \<and>
   length (rendered_posts (fst (dispatch simple_forms 1000 archive (http_get None Index)))) \<le> 10"
proof -
  have g: "\<And>u a. request_method (http_get u a) = ''GET''" "\<And>u a. GET_page (http_get u a) = NoPage"
    "\<And>u a. path (http_get u a) = a"
    "\<And>u a k. request_method (http_get_page u a k) = ''GET''"
    "\<And>u a k. GET_page (http_get_page u a k) = PageNumber k"
    "\<And>u a k. path (http_get_page u a k) = a"
    by (simp_all add: http_get_def http_get_page_def)
  note facts = g archive_visible archive_category archive_profile archive_order archive_length
    archive_lookups
  have i1: "dispatch simple_forms 1000 archive (http_get None Index) =
          (Render ''blog/index.html''
             (IndexContext (annotate_comment_count archive (take 10 (rev archive_posts))) 12),
           archive)"
    using listing_views_ordered_and_paged
      [where r = "http_get None Index" and n = 1 and now = 1000 and d = archive
         and F = simple_forms]
    by (simp add: facts)
  have i2: "dispatch simple_forms 1000 archive (http_get_page None Index 2) =
          (Render ''blog/index.html''
             (IndexContext (annotate_comment_count archive (take 10 (drop 10 (rev archive_posts))))
                12), archive)"
    using listing_views_ordered_and_paged
      [where r = "http_get_page None Index 2" and n = 2 and now = 1000 and d = archive
         and F = simple_forms]
    by (simp add: facts)
  have c1: "dispatch simple_forms 1000 archive (http_get None (CategoryPosts ''travel'')) =
          (Render ''blog/category.html''
             (CategoryContext (annotate_comment_count archive (take 10 (rev archive_posts)))
                travel), archive)"
    using listing_views_ordered_and_paged
      [where r = "http_get None (CategoryPosts ''travel'')" and n = 1 and now = 1000
         and d = archive and F = simple_forms]
    by (simp add: facts)
  have c2: "dispatch simple_forms 1000 archive (http_get_page None (CategoryPosts ''travel'') 2) =
          (Render ''blog/category.html''
             (CategoryContext
                (annotate_comment_count archive (take 10 (drop 10 (rev archive_posts))))
                travel), archive)"
    using listing_views_ordered_and_paged
      [where r = "http_get_page None (CategoryPosts ''travel'') 2" and n = 2 and now = 1000
         and d = archive and F = simple_forms]
    by (simp add: facts)
  have p1: "dispatch simple_forms 1000 archive (http_get None (Profile ''alice'')) =
          (Render ''blog/profile.html''
             (ProfileContext (annotate_comment_count archive (take 10 (rev archive_posts)))
                alice), archive)"
    using listing_views_ordered_and_paged
      [where r = "http_get None (Profile ''alice'')" and n = 1 and now = 1000
         and d = archive and F = simple_forms]
    by (simp add: facts)
  have p2: "dispatch simple_forms 1000 archive (http_get_page None (Profile ''alice'') 2) =
          (Render ''blog/profile.html''
             (ProfileContext
                (annotate_comment_count archive (take 10 (drop 10 (rev archive_posts))))
                alice), archive)"
    using listing_views_ordered_and_paged
      [where r = "http_get_page None (Profile ''alice'') 2" and n = 2 and now = 1000
         and d = archive and F = simple_forms]
    by (simp add: facts)
  show ?thesis
    unfolding i1 i2 c1 c2 p1 p2
    by (simp add: archive_pages)
qed

section \<open>Who may edit and delete\<close>

lemma get_object_or_404_unique:
  assumes "distinct (map f rows)"
  shows "get_object_or_404 (\<lambda>x. f x = k) rows = Inl Http404 \<or>
         (\<exists>x. get_object_or_404 (\<lambda>x. f x = k) rows = Inr x)"
proof -
  have "length (filter (\<lambda>x. f x = k) rows) \<le> 1"
    using assms by (induction rows) (auto simp: image_iff filter_empty_conv)
  then show ?thesis
    by (cases "filter (\<lambda>x. f x = k) rows") (auto simp: get_object_or_404_def split: list.splits)
qed

lemma post_id_found:
  "get_object_or_404 (\<lambda>p. post_id p = k) (posts d) = Inr p \<Longrightarrow> post_id p = k"
  by (rule get_object_or_404_sound)

lemma delete_post_refused:
  assumes "user r = Some u"
    and "get_object_or_404 (\<lambda>p. post_id p = k) (posts d) = Inr p"
    and "user_id u \<noteq> author p" and "\<not> is_staff u"
  shows "delete_post d r k = Inr (Redirect (Reverse (PostDetail k)), d)"
  using assms post_id_found [OF assms(2)]
  by (simp add: delete_post_def login_required_def)

lemma delete_post_done:
  assumes "user r = Some u"
    and "get_object_or_404 (\<lambda>p. post_id p = k) (posts d) = Inr p"
    and "user_id u = author p \<or> is_staff u" and "request_method r = ''POST''"
  shows "delete_post d r k = Inr (Redirect (Reverse Index), post_delete d p)"
  using assms by (auto simp: delete_post_def login_required_def)

lemma post_delete_removes:
  "post_id p \<notin> post_id ` set (posts (post_delete d p))"
  by (auto simp: post_delete_def)

lemma delete_comment_refused:
  assumes "user r = Some u"
    and "get_object_or_404 (\<lambda>c. comment_id c = j) (comments d) = Inr c"
    and "user_id u \<noteq> comment_author c"
  shows "delete_comment d r k j = Inr (Redirect (Reverse (PostDetail k)), d)"
  using assms by (simp add: delete_comment_def login_required_def)

lemma delete_comment_done:
  assumes "user r = Some u"
    and "get_object_or_404 (\<lambda>c. comment_id c = j) (comments d) = Inr c"
    and "user_id u = comment_author c" and "request_method r = ''POST''"
  shows "delete_comment d r k j = Inr (Redirect (Reverse (PostDetail k)), comment_delete d c)"
  using assms by (simp add: delete_comment_def login_required_def)

lemma comment_delete_removes:
  "comment_id c \<notin> comment_id ` set (comments (comment_delete d c))"
  by (auto simp: comment_delete_def)

lemma edit_post_refused:
  assumes "user r = Some u" and "k \<noteq> 0"
    and "get_object_or_404 (\<lambda>p. post_id p = k) (posts d) = Inr p"
    and "user_id u \<noteq> author p"
  shows "create_post F d r (Some k) = Inr (Redirect (Reverse (PostDetail k)), d)"
  using assms post_id_found [OF assms(3)]
  by (simp add: create_post_def login_required_def)

lemma edit_comment_refused:
  assumes "user r = Some u" and "j \<noteq> 0"
    and "get_object_or_404 (\<lambda>p. post_id p = k) (posts d) = Inr p"
    and "get_object_or_404 (\<lambda>c. comment_id c = j \<and> comment_post c = k) (comments d) = Inr c"
    and "user_id u \<noteq> comment_author c"
  shows "add_comment F d r k (Some j) = Inr (Redirect (Reverse (PostDetail k)), d)"
  using assms post_id_found [OF assms(3)]
  by (simp add: add_comment_def login_required_def)

lemma edit_comment_mismatch:
  assumes "user r = Some u" and "j \<noteq> 0"
    and "get_object_or_404 (\<lambda>c. comment_id c = j) (comments d) = Inr c"
    and "comment_post c \<noteq> k"
    and "distinct (map post_id (posts d))"
  shows "add_comment F d r k (Some j) = Inl Http404"
proof -
  from get_object_or_404_unique [OF assms(5), of k]
  consider "get_object_or_404 (\<lambda>p. post_id p = k) (posts d) = Inl Http404"
    | p where "get_object_or_404 (\<lambda>p. post_id p = k) (posts d) = Inr p"
    by blast
  then show ?thesis
  proof cases
    case 1
    with assms(1) show ?thesis by (simp add: add_comment_def login_required_def)
  next
    case 2
    have "get_object_or_404 (\<lambda>x. comment_id x = j \<and> comment_post x = post_id p) (comments d)
            = Inl Http404"
      using assms(4) post_id_found [OF 2]
      by (intro get_object_or_404_refine_missing [OF assms(3)]) simp
    with 2 assms(1,2) show ?thesis by (simp add: add_comment_def login_required_def)
  qed
qed


lemma dispatch_DeletePost:
  "path r = DeletePost k \<Longrightarrow> dispatch F now d r = respond d (delete_post d r k)"
  by (simp add: dispatch_def)

lemma dispatch_DeleteComment:
  "path r = DeleteComment k j \<Longrightarrow> dispatch F now d r = respond d (delete_comment d r k j)"
  by (simp add: dispatch_def)

lemma dispatch_EditPost:
  "path r = EditPost k \<Longrightarrow> dispatch F now d r = respond d (create_post F d r (Some k))"
  by (simp add: dispatch_def)

lemma dispatch_EditComment:
  "path r = EditComment k j \<Longrightarrow> dispatch F now d r = respond d (add_comment F d r k (Some j))"
  by (simp add: dispatch_def)

lemma get_post1: "get_object_or_404 (\<lambda>p. post_id p = 1) (posts blog) = Inr post1"
  by (simp add: get_object_or_404_def blog_def post1_def post2_def post3_def post4_def)

lemma get_comment1: "get_object_or_404 (\<lambda>c. comment_id c = 1) (comments blog) = Inr comment1"
  by (simp add: get_object_or_404_def blog_def comment1_def comment2_def)

lemma get_comment2: "get_object_or_404 (\<lambda>c. comment_id c = 2) (comments blog) = Inr comment2"
  by (simp add: get_object_or_404_def blog_def comment1_def comment2_def)

lemma get_comment1_of_post1:
  "get_object_or_404 (\<lambda>c. comment_id c = 1 \<and> comment_post c = 1) (comments blog) = Inr comment1"
  by (simp add: get_object_or_404_def blog_def comment1_def comment2_def)

section \<open>Deleting\<close>

text \<open>
  Claim C2, amended. A POST request of a logged-in requester to the post delete route
  deletes the post exactly when the requester is the post's author or a staff user.
  A POST request of a logged-in requester to the comment delete route deletes the
  comment exactly when the requester is the comment's author. A requester who may not
  delete is redirected to the post detail page, and the database stays as it was.
\<close>

theorem delete_authorization:
  assumes "user r = Some u" and "request_method r = ''POST''"
  shows "(\<forall>k p. path r = DeletePost k \<longrightarrow>
            get_object_or_404 (\<lambda>p. post_id p = k) (posts d) = Inr p \<longrightarrow>
            ((k \<notin> post_id ` set (posts (snd (dispatch F now d r)))) \<longleftrightarrow>
               (user_id u = author p \<or> is_staff u)) \<and>
            (\<not> (user_id u = author p \<or> is_staff u) \<longrightarrow>
               dispatch F now d r = (Redirect (Reverse (PostDetail k)), d))) \<and>
         (\<forall>k j c. path r = DeleteComment k j \<longrightarrow>
            get_object_or_404 (\<lambda>c. comment_id c = j) (comments d) = Inr c \<longrightarrow>
            ((j \<notin> comment_id ` set (comments (snd (dispatch F now d r)))) \<longleftrightarrow>
               user_id u = comment_author c) \<and>
            (user_id u \<noteq> comment_author c \<longrightarrow>
               dispatch F now d r = (Redirect (Reverse (PostDetail k)), d)))"
proof (intro conjI allI impI)
  fix k p
  assume a: "path r = DeletePost k"
    and g: "get_object_or_404 (\<lambda>p. post_id p = k) (posts d) = Inr p"
  have here: "p \<in> set (posts d)" "post_id p = k"
    using g by (rule get_object_or_404_sound)+
  show "(k \<notin> post_id ` set (posts (snd (dispatch F now d r)))) \<longleftrightarrow>
          (user_id u = author p \<or> is_staff u)"
  proof (cases "user_id u = author p \<or> is_staff u")
    case True
    from delete_post_done [OF assms(1) g True assms(2)] True here post_delete_removes [of p d]
    show ?thesis by (simp add: dispatch_DeletePost [OF a])
  next
    case False
    then have "user_id u \<noteq> author p" "\<not> is_staff u" by simp_all
    from delete_post_refused [OF assms(1) g this] False here
    show ?thesis by (auto simp: dispatch_DeletePost [OF a])
  qed
  assume "\<not> (user_id u = author p \<or> is_staff u)"
  then have "user_id u \<noteq> author p" "\<not> is_staff u" by simp_all
  from delete_post_refused [OF assms(1) g this]
  show "dispatch F now d r = (Redirect (Reverse (PostDetail k)), d)"
    by (simp add: dispatch_DeletePost [OF a])
next
  fix k j c
  assume a: "path r = DeleteComment k j"
    and g: "get_object_or_404 (\<lambda>c. comment_id c = j) (comments d) = Inr c"
  have here: "c \<in> set (comments d)" "comment_id c = j"
    using g by (rule get_object_or_404_sound)+
  show "(j \<notin> comment_id ` set (comments (snd (dispatch F now d r)))) \<longleftrightarrow>
          user_id u = comment_author c"
  proof (cases "user_id u = comment_author c")
    case True
    from delete_comment_done [OF assms(1) g True assms(2), of k] True here
      comment_delete_removes [of c d]
    show ?thesis by (simp add: dispatch_DeleteComment [OF a])
  next
    case False
    from delete_comment_refused [OF assms(1) g False, of k] False here
    show ?thesis by (auto simp: dispatch_DeleteComment [OF a])
  qed
  assume "user_id u \<noteq> comment_author c"
  from delete_comment_refused [OF assms(1) g this, of k]
  show "dispatch F now d r = (Redirect (Reverse (PostDetail k)), d)"
    by (simp add: dispatch_DeleteComment [OF a])
qed

theorem delete_authorization_witness:
  "user (http_post (Some admin) (DeletePost 1) []) = Some admin \<and>
   request_method (http_post (Some admin) (DeletePost 1) []) = ''POST'' \<and>
   is_staff admin \<and>
   1 \<notin> post_id ` set (posts (snd (dispatch simple_forms 1000 blog
                                      (http_post (Some admin) (DeletePost 1) [])))) \<and>
   user_id bob \<noteq> author post1 \<and> \<not> is_staff bob \<and>
   dispatch simple_forms 1000 blog (http_post (Some bob) (DeletePost 1) [])
     = (Redirect (Reverse (PostDetail 1)), blog) \<and>
   user_id bob = comment_author comment1 \<and>
   1 \<notin> comment_id ` set (comments (snd (dispatch simple_forms 1000 blog
                                            (http_post (Some bob) (DeleteComment 1 1) [])))) \<and>
   user_id alice \<noteq> comment_author comment1 \<and>
   dispatch simple_forms 1000 blog (http_post (Some alice) (DeleteComment 1 1) [])
     = (Redirect (Reverse (PostDetail 1)), blog)"
proof -
  have u: "\<And>v a. user (http_post (Some v) a []) = Some v"
    and m: "\<And>v a. request_method (http_post v a []) = ''POST''"
    and p: "\<And>v a. path (http_post v a []) = a"
    by (simp_all add: http_post_def)
  have f: "is_staff admin" "user_id bob \<noteq> author post1" "\<not> is_staff bob"
    "user_id bob = comment_author comment1" "user_id alice \<noteq> comment_author comment1"
    by (simp_all add: admin_def bob_def alice_def post1_def comment1_def)
  show ?thesis
    using delete_authorization [OF u m, of admin "DeletePost 1" blog simple_forms 1000]
      delete_authorization [OF u m, of bob "DeletePost 1" blog simple_forms 1000]
      delete_authorization [OF u m, of bob "DeleteComment 1 1" blog simple_forms 1000]
      delete_authorization [OF u m, of alice "DeleteComment 1 1" blog simple_forms 1000]
      get_post1 get_comment1 f
    by (simp add: u m p)
qed

lemma staff_comment_delete_example:
  "dispatch simple_forms 1000 blog (http_post (Some admin) (DeleteComment 1 1) [])
     = (Redirect (Reverse (PostDetail 1)), blog)"
proof -
  have "delete_comment blog (http_post (Some admin) (DeleteComment 1 1) []) 1 1
          = Inr (Redirect (Reverse (PostDetail 1)), blog)"
    by (rule delete_comment_refused [where u = admin, OF _ get_comment1])
       (simp_all add: http_post_def admin_def comment1_def)
  then show ?thesis
    by (simp add: dispatch_def http_post_def)
qed

theorem staff_comment_delete_counterexample:
  "\<not> ((1 \<notin> comment_id ` set (comments (snd (dispatch simple_forms 1000 blog
                                              (http_post (Some admin) (DeleteComment 1 1) [])))))
        \<longleftrightarrow> (user_id admin = comment_author comment1 \<or> is_staff admin))"
  unfolding staff_comment_delete_example
  by (simp add: admin_def comment1_def blog_def)

section \<open>Refused edits and deletions\<close>

lemma distinct_blog: "distinct (map post_id (posts blog))"
  by (simp add: blog_def post1_def post2_def post3_def post4_def)

lemma edit_comment_other_post_example:
  "dispatch simple_forms 1000 blog (http_post (Some alice) (EditComment 3 1) [(''text'', ''x'')])
     = (HttpResponseNotFound, blog)"
proof -
  have "add_comment simple_forms blog
          (http_post (Some alice) (EditComment 3 1) [(''text'', ''x'')]) 3 (Some 1) = Inl Http404"
    by (rule edit_comment_mismatch [where u = alice and c = comment1, OF _ _ get_comment1])
       (simp_all add: http_post_def comment1_def distinct_blog)
  then show ?thesis
    by (simp add: dispatch_def http_post_def)
qed

text \<open>
  Claim C3, amended. A logged-in user who asks to edit or delete a post or a comment
  without being authorized for it (the author, or for deleting a post the author or a
  staff user) changes nothing in the database. When the address names the post of the
  record, as it always does on the two post routes, the answer is a redirect to the
  detail page of that post. A comment edit whose address names another post than the
  comment's is answered with a 404.
\<close>

theorem unauthorized_mutation_redirects:
  assumes "user r = Some u"
  shows "(\<forall>k p. path r = EditPost k \<longrightarrow> k \<noteq> 0 \<longrightarrow>
            get_object_or_404 (\<lambda>p. post_id p = k) (posts d) = Inr p \<longrightarrow>
            user_id u \<noteq> author p \<longrightarrow>
            dispatch F now d r = (Redirect (Reverse (PostDetail (post_id p))), d)) \<and>
         (\<forall>k p. path r = DeletePost k \<longrightarrow>
            get_object_or_404 (\<lambda>p. post_id p = k) (posts d) = Inr p \<longrightarrow>
            user_id u \<noteq> author p \<and> \<not> is_staff u \<longrightarrow>
            dispatch F now d r = (Redirect (Reverse (PostDetail (post_id p))), d)) \<and>
         (\<forall>k j c. path r = EditComment k j \<longrightarrow> j \<noteq> 0 \<longrightarrow>
            get_object_or_404 (\<lambda>c. comment_id c = j) (comments d) = Inr c \<longrightarrow>
            user_id u \<noteq> comment_author c \<longrightarrow>
            distinct (map post_id (posts d)) \<longrightarrow>
            (comment_post c = k \<longrightarrow> k \<in> post_id ` set (posts d) \<longrightarrow>
               dispatch F now d r = (Redirect (Reverse (PostDetail (comment_post c))), d)) \<and>
            (comment_post c \<noteq> k \<longrightarrow> dispatch F now d r = (HttpResponseNotFound, d))) \<and>
         (\<forall>k j c. path r = DeleteComment k j \<longrightarrow>
            get_object_or_404 (\<lambda>c. comment_id c = j) (comments d) = Inr c \<longrightarrow>
            user_id u \<noteq> comment_author c \<longrightarrow>
            snd (dispatch F now d r) = d \<and>
            (comment_post c = k \<longrightarrow>
               dispatch F now d r = (Redirect (Reverse (PostDetail (comment_post c))), d)))"
proof (intro conjI allI impI)
  fix k p
  assume a: "path r = EditPost k" "k \<noteq> 0"
    and g: "get_object_or_404 (\<lambda>p. post_id p = k) (posts d) = Inr p"
    and n: "user_id u \<noteq> author p"
  from post_id_found [OF g] a edit_post_refused [OF assms a(2) g n]
  show "dispatch F now d r = (Redirect (Reverse (PostDetail (post_id p))), d)"
    by (simp add: dispatch_EditPost)
next
  fix k p
  assume a: "path r = DeletePost k"
    and g: "get_object_or_404 (\<lambda>p. post_id p = k) (posts d) = Inr p"
    and n: "user_id u \<noteq> author p \<and> \<not> is_staff u"
  then have "user_id u \<noteq> author p" "\<not> is_staff u" by simp_all
  from post_id_found [OF g] a delete_post_refused [OF assms g this]
  show "dispatch F now d r = (Redirect (Reverse (PostDetail (post_id p))), d)"
    by (simp add: dispatch_DeletePost)
next
  fix k j c
  assume a: "path r = EditComment k j" "j \<noteq> 0"
    and g: "get_object_or_404 (\<lambda>c. comment_id c = j) (comments d) = Inr c"
    and n: "user_id u \<noteq> comment_author c"
    and u: "distinct (map post_id (posts d))"
  {
    assume same: "comment_post c = k" and "k \<in> post_id ` set (posts d)"
    with get_object_or_404_unique [OF u, of k] obtain p
      where p: "get_object_or_404 (\<lambda>p. post_id p = k) (posts d) = Inr p"
      by (auto simp: get_object_or_404_def filter_empty_conv split: list.splits)
    from same have "get_object_or_404 (\<lambda>x. comment_id x = j \<and> comment_post x = k) (comments d)
                      = Inr c"
      by (intro get_object_or_404_refine_found [OF g])
    from edit_comment_refused [OF assms a(2) p this n] same a(1)
    show "dispatch F now d r = (Redirect (Reverse (PostDetail (comment_post c))), d)"
      by (simp add: dispatch_EditComment)
  }
  {
    assume "comment_post c \<noteq> k"
    from edit_comment_mismatch [OF assms a(2) g this u] a(1)
    show "dispatch F now d r = (HttpResponseNotFound, d)"
      by (simp add: dispatch_EditComment)
  }
next
  fix k j c
  assume a: "path r = DeleteComment k j"
    and g: "get_object_or_404 (\<lambda>c. comment_id c = j) (comments d) = Inr c"
    and n: "user_id u \<noteq> comment_author c"
  from delete_comment_refused [OF assms g n, of k] a
  have *: "dispatch F now d r = (Redirect (Reverse (PostDetail k)), d)"
    by (simp add: dispatch_DeleteComment)
  then show "snd (dispatch F now d r) = d" by simp
  assume "comment_post c = k"
  with * show "dispatch F now d r = (Redirect (Reverse (PostDetail (comment_post c))), d)"
    by simp
qed

theorem unauthorized_mutation_redirects_witness:
  "user (http_post (Some bob) (EditPost 1) [(''title'', ''Mine'')]) = Some bob \<and>
   user_id bob \<noteq> author post1 \<and> \<not> is_staff bob \<and> post_id post1 = 1 \<and>
   dispatch simple_forms 1000 blog (http_post (Some bob) (EditPost 1) [(''title'', ''Mine'')])
     = (Redirect (Reverse (PostDetail 1)), blog) \<and>
   dispatch simple_forms 1000 blog (http_post (Some bob) (DeletePost 1) [])
     = (Redirect (Reverse (PostDetail 1)), blog) \<and>
   user_id alice \<noteq> comment_author comment1 \<and> comment_post comment1 = 1 \<and>
   dispatch simple_forms 1000 blog (http_post (Some alice) (EditComment 1 1) [(''text'', ''x'')])
     = (Redirect (Reverse (PostDetail 1)), blog) \<and>
   dispatch simple_forms 1000 blog (http_post (Some alice) (EditComment 3 1) [(''text'', ''x'')])
     = (HttpResponseNotFound, blog) \<and>
   dispatch simple_forms 1000 blog (http_post (Some alice) (DeleteComment 1 1) [])
     = (Redirect (Reverse (PostDetail 1)), blog) \<and>
   snd (dispatch simple_forms 1000 blog (http_post (Some alice) (DeleteComment 9 1) [])) = blog"
proof -
  have u: "\<And>v a q. user (http_post (Some v) a q) = Some v"
    and p: "\<And>v a q. path (http_post v a q) = a"
    by (simp_all add: http_post_def)
  have f: "user_id bob \<noteq> author post1" "\<not> is_staff bob" "post_id post1 = 1"
    "user_id alice \<noteq> comment_author comment1" "comment_post comment1 = 1"
    "1 \<in> post_id ` set (posts blog)"
    by (simp_all add: bob_def alice_def post1_def comment1_def blog_def)
  show ?thesis
    using unauthorized_mutation_redirects
        [OF u, of bob "EditPost 1" "[(''title'', ''Mine'')]" blog simple_forms 1000]
      unauthorized_mutation_redirects [OF u, of bob "DeletePost 1" "[]" blog simple_forms 1000]
      unauthorized_mutation_redirects
        [OF u, of alice "EditComment 1 1" "[(''text'', ''x'')]" blog simple_forms 1000]
      unauthorized_mutation_redirects
        [OF u, of alice "EditComment 3 1" "[(''text'', ''x'')]" blog simple_forms 1000]
      unauthorized_mutation_redirects
        [OF u, of alice "DeleteComment 1 1" "[]" blog simple_forms 1000]
      unauthorized_mutation_redirects
        [OF u, of alice "DeleteComment 9 1" "[]" blog simple_forms 1000]
      get_post1 get_comment1 distinct_blog f
    by (simp add: u p)
qed

theorem edit_comment_other_post_counterexample:
  "\<not> (user_id alice \<noteq> comment_author comment1 \<longrightarrow>
        fst (dispatch simple_forms 1000 blog
               (http_post (Some alice) (EditComment 3 1) [(''text'', ''x'')]))
          = Redirect (Reverse (PostDetail (comment_post comment1))))"
  unfolding edit_comment_other_post_example
  by (simp add: alice_def comment1_def)

section \<open>The post of a comment\<close>

text \<open>
  Claim C8. The comment delete route does not check that the comment belongs to the
  post in the address: a POST of the comment's author deletes an existing comment
  under any post id. The comment edit route answers with a 404 when the comment is
  attached to another post than the one in the address.
\<close>

theorem delete_comment_ignores_post:
  assumes "user r = Some u"
    and "get_object_or_404 (\<lambda>c. comment_id c = j) (comments d) = Inr c"
    and "user_id u = comment_author c"
    and "request_method r = ''POST''"
  shows "(path r = DeleteComment k j \<longrightarrow>
            dispatch F now d r = (Redirect (Reverse (PostDetail k)), comment_delete d c) \<and>
            j \<notin> comment_id ` set (comments (comment_delete d c))) \<and>
         (path r = EditComment k j \<longrightarrow> j \<noteq> 0 \<longrightarrow> comment_post c \<noteq> k \<longrightarrow>
            distinct (map post_id (posts d)) \<longrightarrow>
            dispatch F now d r = (HttpResponseNotFound, d))"
proof (intro conjI impI)
  assume a: "path r = DeleteComment k j"
  from delete_comment_done [OF assms, of k]
  show "dispatch F now d r = (Redirect (Reverse (PostDetail k)), comment_delete d c)"
    by (simp add: dispatch_DeleteComment [OF a])
  from get_object_or_404_sound(1) [OF assms(2)] comment_delete_removes [of c d]
  show "j \<notin> comment_id ` set (comments (comment_delete d c))" by simp
next
  assume a: "path r = EditComment k j" and "j \<noteq> 0" "comment_post c \<noteq> k"
    "distinct (map post_id (posts d))"
  from edit_comment_mismatch [OF assms(1) this(2) assms(2) this(3,4)]
  show "dispatch F now d r = (HttpResponseNotFound, d)"
    by (simp add: dispatch_EditComment [OF a])
qed

theorem delete_comment_ignores_post_witness:
  "user (http_post (Some alice) (DeleteComment 1 2) []) = Some alice \<and>
   get_object_or_404 (\<lambda>c. comment_id c = 2) (comments blog) = Inr comment2 \<and>
   user_id alice = comment_author comment2 \<and> comment_post comment2 \<noteq> 1 \<and>
   distinct (map post_id (posts blog)) \<and>
   dispatch simple_forms 1000 blog (http_post (Some alice) (DeleteComment 1 2) [])
     = (Redirect (Reverse (PostDetail 1)), blog\<lparr>comments := [comment1]\<rparr>) \<and>
   dispatch simple_forms 1000 blog (http_post (Some alice) (EditComment 1 2) [(''text'', ''x'')])
     = (HttpResponseNotFound, blog)"
proof -
  have u: "\<And>v a q. user (http_post (Some v) a q) = Some v"
    and m: "\<And>v a q. request_method (http_post v a q) = ''POST''"
    and p: "\<And>v a q. path (http_post v a q) = a"
    by (simp_all add: http_post_def)
  have f: "user_id alice = comment_author comment2" "comment_post comment2 \<noteq> 1"
    "distinct (map post_id (posts blog))"
    by (simp_all add: alice_def comment2_def blog_def post1_def post2_def post3_def post4_def)
  have c: "comment_delete blog comment2 = blog\<lparr>comments := [comment1]\<rparr>"
    by (simp add: comment_delete_def blog_def comment1_def comment2_def)
  show ?thesis
    using delete_comment_ignores_post [OF u get_comment2 f(1) m,
        of "DeleteComment 1 2" "[]" 1 simple_forms 1000]
      delete_comment_ignores_post [OF u get_comment2 f(1) m,
        of "EditComment 1 2" "[(''text'', ''x'')]" 1 simple_forms 1000]
      get_comment2 f c
    by (simp add: u p)
qed

section \<open>Records that do not exist\<close>

lemma edit_comment_missing:
  assumes "user r = Some u"
    and "(\<forall>p \<in> set (posts d). post_id p \<noteq> k) \<or>
         (j \<noteq> 0 \<and> (\<forall>c \<in> set (comments d). comment_id c \<noteq> j))"
    and "distinct (map post_id (posts d))"
  shows "add_comment F d r k (Some j) = Inl Http404"
proof -
  from get_object_or_404_unique [OF assms(3), of k]
  consider "get_object_or_404 (\<lambda>p. post_id p = k) (posts d) = Inl Http404"
    | p where "get_object_or_404 (\<lambda>p. post_id p = k) (posts d) = Inr p"
    by blast
  then show ?thesis
  proof cases
    case 1
    with assms(1) show ?thesis by (simp add: add_comment_def login_required_def)
  next
    case 2
    then have "p \<in> set (posts d)" "post_id p = k"
      by (rule get_object_or_404_sound)+
    with assms(2) have j: "j \<noteq> 0" "\<forall>c \<in> set (comments d). comment_id c \<noteq> j" by auto
    then have "get_object_or_404 (\<lambda>c. comment_id c = j \<and> comment_post c = post_id p) (comments d)
                 = Inl Http404"
      by (intro get_object_or_404_missing) simp
    with 2 assms(1) j(1) show ?thesis by (simp add: add_comment_def login_required_def)
  qed
qed

lemma edit_post_zero_example:
  "fst (dispatch simple_forms 1000 blog (http_post (Some bob) (EditPost 0) [(''title'', ''x'')]))
     = Redirect (Reverse (Profile ''bob'')) \<and>
   map post_id (posts (snd (dispatch simple_forms 1000 blog
                              (http_post (Some bob) (EditPost 0) [(''title'', ''x'')]))))
     = [1, 2, 3, 4, 5]"
  by (simp add: dispatch_def create_post_def create_post_form_def login_required_def
        post_form_of_def or_None_def is_valid_def is_bound_def errors_def required_def
        simple_forms_def save_post_def http_post_def bob_def blog_def
        post1_def post2_def post3_def post4_def blank_post_def)

lemma delete_comment_missing_post_example:
  "9 \<notin> post_id ` set (posts blog) \<and>
   dispatch simple_forms 1000 blog (http_post (Some bob) (DeleteComment 9 1) [])
     = (Redirect (Reverse (PostDetail 9)), blog\<lparr>comments := [comment2]\<rparr>)"
proof -
  have "delete_comment blog (http_post (Some bob) (DeleteComment 9 1) []) 9 1
          = Inr (Redirect (Reverse (PostDetail 9)), comment_delete blog comment1)"
    by (rule delete_comment_done [where u = bob, OF _ get_comment1])
       (simp_all add: http_post_def bob_def comment1_def)
  moreover have "comment_delete blog comment1 = blog\<lparr>comments := [comment2]\<rparr>"
    by (simp add: comment_delete_def blog_def comment1_def comment2_def)
  ultimately show ?thesis
    by (simp add: dispatch_def http_post_def blog_def post1_def post2_def post3_def post4_def)
qed

text \<open>
  Claim C5, amended. A request that its view takes up (\<^verbatim>\<open>GET\<close> or \<^verbatim>\<open>HEAD\<close> on a list
  view, any method on the post detail page, a logged-in requester on the mutating
  routes) and that names a record that the view looks up and that does not exist is
  answered with a 404, and the database stays as it was. The records looked up are the category of a category feed, the
  user of a profile feed, the post of the detail page, of post edit (nonzero id), of
  post delete and of comment add and edit, and the comment of comment edit (nonzero
  id) and of comment delete. Post ids are unique, as primary keys are.
\<close>

theorem missing_record_404:
  assumes "mutating (path r) \<longrightarrow> user r \<noteq> None"
    and "list_route (path r) \<longrightarrow> request_method r = ''GET'' \<or> request_method r = ''HEAD''"
    and "names_missing_record d (path r)"
    and "distinct (map post_id (posts d))"
  shows "dispatch F now d r = (HttpResponseNotFound, d)"
proof (cases "path r")
  case (CategoryPosts s)
  with assms(3) have "get_category d s = Inl Http404"
    by (simp add: get_category_def get_object_or_404_missing)
  with CategoryPosts assms(2) show ?thesis
    by (simp add: dispatch_def CategoryListView_def View_dispatch_get CategoryListView_get_def
          CategoryListView_get_queryset_def)
next
  case (Profile name)
  with assms(3) have "get_profile d name = Inl Http404"
    by (simp add: get_profile_def get_object_or_404_missing)
  with Profile assms(2) show ?thesis
    by (simp add: dispatch_def ProfileListView_def View_dispatch_get ProfileListView_get_def
          ProfileListView_get_queryset_def)
next
  case (PostDetail k)
  with assms(3) have "get_object_or_404 (\<lambda>p. post_id p = k) (posts d) = Inl Http404"
    by (simp add: get_object_or_404_missing)
  with PostDetail show ?thesis
    by (simp add: dispatch_def post_detail_def)
next
  case (EditPost k)
  with assms(1) obtain u where u: "user r = Some u" by auto
  from EditPost assms(3)
  have "k \<noteq> 0" "get_object_or_404 (\<lambda>p. post_id p = k) (posts d) = Inl Http404"
    by (simp_all add: get_object_or_404_missing)
  with EditPost u show ?thesis
    by (simp add: dispatch_def create_post_def login_required_def)
next
  case (DeletePost k)
  with assms(1) obtain u where u: "user r = Some u" by auto
  from DeletePost assms(3)
  have "get_object_or_404 (\<lambda>p. post_id p = k) (posts d) = Inl Http404"
    by (simp add: get_object_or_404_missing)
  with DeletePost u show ?thesis
    by (simp add: dispatch_def delete_post_def login_required_def)
next
  case (AddComment k)
  with assms(1) obtain u where u: "user r = Some u" by auto
  from AddComment assms(3)
  have "get_object_or_404 (\<lambda>p. post_id p = k) (posts d) = Inl Http404"
    by (simp add: get_object_or_404_missing)
  with AddComment u show ?thesis
    by (simp add: dispatch_def add_comment_def login_required_def)
next
  case (EditComment k j)
  with assms(1) obtain u where u: "user r = Some u" by auto
  from EditComment assms(3)
  have "(\<forall>p \<in> set (posts d). post_id p \<noteq> k) \<or>
        (j \<noteq> 0 \<and> (\<forall>c \<in> set (comments d). comment_id c \<noteq> j))" by simp
  from edit_comment_missing [OF u this assms(4)] EditComment show ?thesis
    by (simp add: dispatch_def)
next
  case (DeleteComment k j)
  with assms(1) obtain u where u: "user r = Some u" by auto
  from DeleteComment assms(3)
  have "get_object_or_404 (\<lambda>c. comment_id c = j) (comments d) = Inl Http404"
    by (simp add: get_object_or_404_missing)
  with DeleteComment u show ?thesis
    by (simp add: dispatch_def delete_comment_def login_required_def)
qed (insert assms(3), simp_all)

theorem missing_record_404_witness:
  "request_method (http_get None (CategoryPosts ''food'')) = ''GET'' \<and>
   names_missing_record blog (path (http_get None (CategoryPosts ''food''))) \<and>
   dispatch simple_forms 1000 blog (http_get None (CategoryPosts ''food''))
     = (HttpResponseNotFound, blog) \<and>
   names_missing_record blog (path (http_get None (Profile ''carol''))) \<and>
   dispatch simple_forms 1000 blog (http_get None (Profile ''carol''))
     = (HttpResponseNotFound, blog) \<and>
   names_missing_record blog (path (http_get None (PostDetail 9))) \<and>
   dispatch simple_forms 1000 blog (http_get None (PostDetail 9)) = (HttpResponseNotFound, blog) \<and>
   user (http_post (Some bob) (EditComment 1 7) [(''text'', ''x'')]) \<noteq> None \<and>
   names_missing_record blog (path (http_post (Some bob) (EditComment 1 7) [(''text'', ''x'')])) \<and>
   dispatch simple_forms 1000 blog (http_post (Some bob) (EditComment 1 7) [(''text'', ''x'')])
     = (HttpResponseNotFound, blog) \<and>
   names_missing_record blog (path (http_post (Some bob) (DeletePost 9) [])) \<and>
   dispatch simple_forms 1000 blog (http_post (Some bob) (DeletePost 9) [])
     = (HttpResponseNotFound, blog)"
proof -
  have a: "names_missing_record blog (path (http_get None (PostDetail 9)))"
    and b: "names_missing_record blog (path (http_get None (CategoryPosts ''food'')))"
    and b': "names_missing_record blog (path (http_get None (Profile ''carol'')))"
    and c: "names_missing_record blog (path (http_post (Some bob) (EditComment 1 7) [(''text'', ''x'')]))"
    and e: "names_missing_record blog (path (http_post (Some bob) (DeletePost 9) []))"
    by (simp_all add: http_get_def http_post_def blog_def post1_def post2_def post3_def post4_def
          travel_def hidden_def comment1_def comment2_def alice_def bob_def admin_def)
  have n: "mutating (path (http_get None a)) \<longrightarrow> user (http_get None a) \<noteq> None"
    if "\<not> mutating a" for a
    using that by (simp add: http_get_def)
  have n': "mutating (path (http_post (Some bob) a q)) \<longrightarrow>
              user (http_post (Some bob) a q) \<noteq> None" for a q
    by (simp add: http_post_def)
  have m: "list_route (path (http_get None a)) \<longrightarrow>
             request_method (http_get None a) = ''GET'' \<or>
             request_method (http_get None a) = ''HEAD''" for a
    by (simp add: http_get_def)
  have m': "list_route (path (http_post (Some bob) a q)) \<longrightarrow>
              request_method (http_post (Some bob) a q) = ''GET'' \<or>
              request_method (http_post (Some bob) a q) = ''HEAD''"
    if "\<not> list_route a" for a q
    using that by (simp add: http_post_def)
  show ?thesis
    using missing_record_404 [OF n m a distinct_blog, of simple_forms 1000]
      missing_record_404 [OF n m b distinct_blog, of simple_forms 1000]
      missing_record_404 [OF n m b' distinct_blog, of simple_forms 1000]
      missing_record_404 [OF n' m' c distinct_blog, of simple_forms 1000]
      missing_record_404 [OF n' m' e distinct_blog, of simple_forms 1000]
      a b b' c e
    by (simp add: http_post_def http_get_def)
qed

theorem missing_record_login_counterexample:
  "\<not> (9 \<notin> post_id ` set (posts blog) \<longrightarrow>
        fst (dispatch simple_forms 1000 blog (http_get None (DeletePost 9))) = HttpResponseNotFound)"
  by (simp add: dispatch_def delete_post_def login_required_def http_get_def
        blog_def post1_def post2_def post3_def post4_def)


section \<open>Forms that do not validate\<close>

lemma create_post_form_invalid:
  "\<not> is_valid (PostForm F) d (post_form_of r instance) \<Longrightarrow>
   create_post_form F d r u instance =
     Inr (Render ''blog/create.html'' (CreateContext (post_form_of r instance)), d)"
  by (simp add: create_post_form_def)

lemma add_comment_form_invalid:
  "\<not> is_valid (CommentForm F) d (comment_form_of r instance) \<Longrightarrow>
   add_comment_form F d r u p instance =
     Inr (Render ''blog/comment.html''
            (CommentContext (comment_form_of r instance) instance p), d)"
  by (simp add: add_comment_form_def)

lemma invalid_bound_has_errors:
  "\<not> is_valid M d f \<Longrightarrow> is_bound f \<Longrightarrow> errors M d f \<noteq> []"
  by (simp add: is_valid_def)

lemma simple_forms_invalid:
  "\<not> is_valid (PostForm simple_forms) d (post_form_of (http_post v a [(''body'', ''x'')]) i)"
  "\<not> is_valid (CommentForm simple_forms) d (comment_form_of (http_post v a [(''body'', ''x'')]) j)"
  "\<not> is_valid (ProfileEditForm simple_forms) d (profile_form_of (http_post v a [(''body'', ''x'')]) w)"
  by (simp_all add: is_valid_def is_bound_def errors_def required_def simple_forms_def
        post_form_of_def comment_form_of_def profile_form_of_def or_None_def http_post_def)

text \<open>
  Claim C6, amended. A POST of a logged-in user whose form does not validate creates
  and changes no record, and the answer is the form page again with the submitted form:
  \<^verbatim>\<open>blog/create.html\<close> for post create and edit, \<^verbatim>\<open>blog/comment.html\<close> for
  comment add and edit, \<^verbatim>\<open>blog/user.html\<close> for profile edit. On the edit routes the
  record exists and the requester is its author. The profile form on the page always
  carries at least one validation message, the post form and the comment form
  whenever data was submitted.
\<close>

theorem invalid_form_rerenders:
  assumes "user r = Some u" and "request_method r = ''POST''"
  shows "(path r = CreatePost \<longrightarrow> \<not> is_valid (PostForm F) d (post_form_of r None) \<longrightarrow>
            dispatch F now d r =
              (Render ''blog/create.html'' (CreateContext (post_form_of r None)), d)) \<and>
         (\<forall>k p. path r = EditPost k \<longrightarrow> k \<noteq> 0 \<longrightarrow>
            get_object_or_404 (\<lambda>p. post_id p = k) (posts d) = Inr p \<longrightarrow>
            user_id u = author p \<longrightarrow>
            \<not> is_valid (PostForm F) d (post_form_of r (Some p)) \<longrightarrow>
            dispatch F now d r =
              (Render ''blog/create.html'' (CreateContext (post_form_of r (Some p))), d)) \<and>
         (\<forall>k p. path r = AddComment k \<longrightarrow>
            get_object_or_404 (\<lambda>p. post_id p = k) (posts d) = Inr p \<longrightarrow>
            \<not> is_valid (CommentForm F) d (comment_form_of r None) \<longrightarrow>
            dispatch F now d r =
              (Render ''blog/comment.html''
                 (CommentContext (comment_form_of r None) None p), d)) \<and>
         (\<forall>k j p c. path r = EditComment k j \<longrightarrow> j \<noteq> 0 \<longrightarrow>
            get_object_or_404 (\<lambda>p. post_id p = k) (posts d) = Inr p \<longrightarrow>
            get_object_or_404 (\<lambda>c. comment_id c = j \<and> comment_post c = k) (comments d) = Inr c \<longrightarrow>
            user_id u = comment_author c \<longrightarrow>
            \<not> is_valid (CommentForm F) d (comment_form_of r (Some c)) \<longrightarrow>
            dispatch F now d r =
              (Render ''blog/comment.html''
                 (CommentContext (comment_form_of r (Some c)) (Some c) p), d)) \<and>
         (path r = EditProfile \<longrightarrow> \<not> is_valid (ProfileEditForm F) d (profile_form_of r u) \<longrightarrow>
            dispatch F now d r =
              (Render ''blog/user.html'' (UserContext u (profile_form_of r u)), d) \<and>
            errors (ProfileEditForm F) d (profile_form_of r u) \<noteq> []) \<and>
         (\<forall>instance. POST r \<noteq> [] \<longrightarrow>
            \<not> is_valid (PostForm F) d (post_form_of r instance) \<longrightarrow>
            errors (PostForm F) d (post_form_of r instance) \<noteq> []) \<and>
         (\<forall>instance. POST r \<noteq> [] \<longrightarrow>
            \<not> is_valid (CommentForm F) d (comment_form_of r instance) \<longrightarrow>
            errors (CommentForm F) d (comment_form_of r instance) \<noteq> [])"
proof (intro conjI allI impI)
  assume "path r = CreatePost" "\<not> is_valid (PostForm F) d (post_form_of r None)"
  with assms(1)
  show "dispatch F now d r =
          (Render ''blog/create.html'' (CreateContext (post_form_of r None)), d)"
    by (simp add: dispatch_def create_post_def login_required_def create_post_form_invalid)
next
  fix k p
  assume "path r = EditPost k" "k \<noteq> 0"
    "get_object_or_404 (\<lambda>p. post_id p = k) (posts d) = Inr p" "user_id u = author p"
    "\<not> is_valid (PostForm F) d (post_form_of r (Some p))"
  with assms(1)
  show "dispatch F now d r =
          (Render ''blog/create.html'' (CreateContext (post_form_of r (Some p))), d)"
    by (simp add: dispatch_def create_post_def login_required_def create_post_form_invalid)
next
  fix k p
  assume "path r = AddComment k"
    "get_object_or_404 (\<lambda>p. post_id p = k) (posts d) = Inr p"
    "\<not> is_valid (CommentForm F) d (comment_form_of r None)"
  with assms(1)
  show "dispatch F now d r =
          (Render ''blog/comment.html'' (CommentContext (comment_form_of r None) None p), d)"
    by (simp add: dispatch_def add_comment_def login_required_def add_comment_form_invalid)
next
  fix k j p c
  assume a: "path r = EditComment k j" "j \<noteq> 0"
    and g: "get_object_or_404 (\<lambda>p. post_id p = k) (posts d) = Inr p"
    and b: "get_object_or_404 (\<lambda>c. comment_id c = j \<and> comment_post c = k) (comments d) = Inr c"
      "user_id u = comment_author c"
      "\<not> is_valid (CommentForm F) d (comment_form_of r (Some c))"
  from post_id_found [OF g] a g b assms(1)
  show "dispatch F now d r =
          (Render ''blog/comment.html''
             (CommentContext (comment_form_of r (Some c)) (Some c) p), d)"
    by (simp add: dispatch_def add_comment_def login_required_def add_comment_form_invalid)
next
  assume a: "path r = EditProfile" "\<not> is_valid (ProfileEditForm F) d (profile_form_of r u)"
  with assms
  show "dispatch F now d r =
          (Render ''blog/user.html'' (UserContext u (profile_form_of r u)), d)"
    by (simp add: dispatch_def edit_profile_def login_required_def)
  from a(2) show "errors (ProfileEditForm F) d (profile_form_of r u) \<noteq> []"
    by (rule invalid_bound_has_errors) (simp add: is_bound_def profile_form_of_def)
next
  fix inst
  assume "POST r \<noteq> []" "\<not> is_valid (PostForm F) d (post_form_of r inst)"
  then show "errors (PostForm F) d (post_form_of r inst) \<noteq> []"
    by (intro invalid_bound_has_errors) (simp_all add: is_bound_def post_form_of_def or_None_def)
next
  fix inst
  assume "POST r \<noteq> []" "\<not> is_valid (CommentForm F) d (comment_form_of r inst)"
  then show "errors (CommentForm F) d (comment_form_of r inst) \<noteq> []"
    by (intro invalid_bound_has_errors) (simp_all add: is_bound_def comment_form_of_def or_None_def)
qed

theorem invalid_form_rerenders_witness:
  "user (http_post (Some bob) CreatePost [(''body'', ''x'')]) = Some bob \<and>
   request_method (http_post (Some bob) CreatePost [(''body'', ''x'')]) = ''POST'' \<and>
   \<not> is_valid (PostForm simple_forms) blog
        (post_form_of (http_post (Some bob) CreatePost [(''body'', ''x'')]) None) \<and>
   dispatch simple_forms 1000 blog (http_post (Some bob) CreatePost [(''body'', ''x'')])
     = (Render ''blog/create.html''
          (CreateContext (post_form_of (http_post (Some bob) CreatePost [(''body'', ''x'')]) None)),
        blog) \<and>
   errors (PostForm simple_forms) blog
        (post_form_of (http_post (Some bob) CreatePost [(''body'', ''x'')]) None) \<noteq> [] \<and>
   dispatch simple_forms 1000 blog (http_post (Some alice) (EditPost 1) [(''body'', ''x'')])
     = (Render ''blog/create.html''
          (CreateContext
             (post_form_of (http_post (Some alice) (EditPost 1) [(''body'', ''x'')]) (Some post1))),
        blog) \<and>
   dispatch simple_forms 1000 blog (http_post (Some alice) (AddComment 1) [(''body'', ''x'')])
     = (Render ''blog/comment.html''
          (CommentContext
             (comment_form_of (http_post (Some alice) (AddComment 1) [(''body'', ''x'')]) None)
             None post1), blog) \<and>
   dispatch simple_forms 1000 blog (http_post (Some bob) (EditComment 1 1) [(''body'', ''x'')])
     = (Render ''blog/comment.html''
          (CommentContext
             (comment_form_of (http_post (Some bob) (EditComment 1 1) [(''body'', ''x'')])
                (Some comment1))
             (Some comment1) post1), blog) \<and>
   dispatch simple_forms 1000 blog (http_post (Some bob) EditProfile [(''body'', ''x'')])
     = (Render ''blog/user.html''
          (UserContext bob (profile_form_of (http_post (Some bob) EditProfile [(''body'', ''x'')]) bob)),
        blog)"
proof -
  have u: "\<And>v a q. user (http_post (Some v) a q) = Some v"
    and m: "\<And>v a q. request_method (http_post v a q) = ''POST''"
    and p: "\<And>v a q. path (http_post v a q) = a"
    and q: "\<And>v a q. POST (http_post v a q) = q"
    by (simp_all add: http_post_def)
  have f: "user_id alice = author post1" "user_id bob = comment_author comment1"
    by (simp_all add: alice_def bob_def post1_def comment1_def)
  show ?thesis
    using invalid_form_rerenders [OF u m, of bob CreatePost "[(''body'', ''x'')]" simple_forms blog 1000]
      invalid_form_rerenders [OF u m, of alice "EditPost 1" "[(''body'', ''x'')]" simple_forms blog 1000]
      invalid_form_rerenders [OF u m, of alice "AddComment 1" "[(''body'', ''x'')]" simple_forms blog 1000]
      invalid_form_rerenders [OF u m, of bob "EditComment 1 1" "[(''body'', ''x'')]" simple_forms blog 1000]
      invalid_form_rerenders [OF u m, of bob EditProfile "[(''body'', ''x'')]" simple_forms blog 1000]
      get_post1 get_comment1_of_post1 f simple_forms_invalid
    by (simp add: u m p q)
qed

text \<open>
  A POST without any data: \<^verbatim>\<open>request.POST or None\<close> leaves the post form unbound, so
  it is not valid and the page comes back without a validation message.
\<close>

theorem empty_post_counterexample:
  "\<not> (\<not> is_valid (PostForm simple_forms) blog
           (post_form_of (http_post (Some bob) CreatePost []) None) \<longrightarrow>
        dispatch simple_forms 1000 blog (http_post (Some bob) CreatePost [])
          = (Render ''blog/create.html''
               (CreateContext (post_form_of (http_post (Some bob) CreatePost []) None)), blog) \<and>
        errors (PostForm simple_forms) blog
          (post_form_of (http_post (Some bob) CreatePost []) None) \<noteq> [])"
  by (simp add: is_valid_def is_bound_def errors_def post_form_of_def or_None_def http_post_def)

end
